theory Spec2Isabelle
  imports Complex_Main "HOL-Library.Sublist"
begin

section \<open>JavaScript values used by the race application\<close>

text \<open>
  A JavaScript string is a sequence of UTF-16 code units; a code unit is modelled as a
  natural number.  \<open>js\<close> turns an ASCII literal into such a string.  JavaScript numbers
  that hold millisecond timestamps and counters are integers here.
\<close>

type_synonym jsstr = "nat list"

definition js :: "string \<Rightarrow> jsstr" where
  "js s = map of_char s"

section \<open>Data model (pages/index.tsx, ResultsDisplay.tsx, RaceSettings.tsx)\<close>

text \<open>
  The names are those of the sources, except \<open>id'\<close> for the \<^verbatim>\<open>id\<close> of a lane result,
  \<open>isLoading_app\<close> for the \<^verbatim>\<open>isLoading\<close> of the application state (a lane result has its
  own), and \<open>httpMethod\<close> for the \<^verbatim>\<open>method\<close> of a request.
\<close>

record CompletionMetrics =
  startTime :: int
  firstTokenTime :: "int option"
  finishTime :: int
  tokenCount :: int
  inputTokens :: "int option"
  outputTokens :: "int option"

datatype CompletionResult = Chunk jsstr | Metrics CompletionMetrics

record ResultState =
  id' :: jsstr
  providerName :: jsstr
  modelName :: jsstr
  responseText :: jsstr
  metrics :: "CompletionMetrics option"
  isLoading :: bool
  error :: "jsstr option"

datatype RaceMode = Drag | Token_limit | Time_limit | Free_for_all

datatype ReasoningEffort = Low | Medium | High

record ModelSettings =
  temperature :: rat
  maxTokens :: int
  topP :: rat
  reasoningEffort :: "ReasoningEffort option"

record RaceConfig =
  mode :: RaceMode
  tokenLimit :: "int option"
  timeLimit :: "int option"
  modelSettings :: ModelSettings
  excludedReasoningModels :: "jsstr list option"

record Pair =
  providerId :: jsstr
  modelId :: jsstr

datatype RaceState = Idle | CountingDown | Racing | Finished

datatype Countdown = CountNum int | CountGo

record AppState =
  prompt :: jsstr
  isLoading_app :: bool
  apiKeys :: "jsstr \<rightharpoonup> jsstr"
  selectedPairs :: "Pair list"
  results :: "ResultState list"
  raceState :: RaceState
  countdownValue :: "Countdown option"
  enabledProviders :: "jsstr \<rightharpoonup> bool"
  raceConfig :: RaceConfig

datatype AppAction =
    SET_PROMPT jsstr
  | SET_API_KEY jsstr jsstr
  | TOGGLE_MODEL_SELECTION jsstr jsstr
  | CLEAR_PROVIDER_SELECTIONS jsstr
  | START_COMPARISON "Pair list"
  | RECEIVE_CHUNK jsstr jsstr
  | FINISH_STREAM jsstr CompletionMetrics
  | SET_ERROR jsstr jsstr
  | FINISH_COMPARISON
  | SET_RACE_STATE RaceState
  | SET_COUNTDOWN "Countdown option"
  | SET_PROVIDER_ENABLED jsstr bool
  | RESET_RACE
  | SET_RACE_CONFIG RaceConfig

section \<open>The reducer (appReducer)\<close>

text \<open>The template literal \<^verbatim>\<open>`${p.providerId}-${p.modelId}`\<close>.\<close>

definition resultId :: "Pair \<Rightarrow> jsstr" where
  "resultId p = providerId p @ js ''-'' @ modelId p"

definition stagedLane :: "Pair \<Rightarrow> ResultState" where
  "stagedLane p =
     \<lparr> id' = resultId p, providerName = providerId p, modelName = modelId p,
       responseText = [], metrics = None, isLoading = True, error = None \<rparr>"

definition samePair :: "jsstr \<Rightarrow> jsstr \<Rightarrow> Pair \<Rightarrow> bool" where
  "samePair pid mid p \<longleftrightarrow> providerId p = pid \<and> modelId p = mid"

fun appReducer :: "AppState \<Rightarrow> AppAction \<Rightarrow> AppState" where
  "appReducer state (SET_PROMPT payload) = state\<lparr>prompt := payload\<rparr>"
| "appReducer state (SET_API_KEY pid apiKey) =
     state\<lparr>apiKeys := (apiKeys state)(pid \<mapsto> apiKey)\<rparr>"
| "appReducer state (TOGGLE_MODEL_SELECTION pid mid) =
     (let exists = list_ex (samePair pid mid) (selectedPairs state);
          next = (if exists
                  then filter (\<lambda>p. \<not> samePair pid mid p) (selectedPairs state)
                  else selectedPairs state @ [\<lparr>providerId = pid, modelId = mid\<rparr>])
      in state\<lparr>selectedPairs := next\<rparr>)"
| "appReducer state (CLEAR_PROVIDER_SELECTIONS pid) =
     state\<lparr>selectedPairs := filter (\<lambda>p. providerId p \<noteq> pid) (selectedPairs state)\<rparr>"
| "appReducer state (START_COMPARISON providersToTest) =
     state\<lparr>isLoading_app := True, results := map stagedLane providersToTest\<rparr>"
| "appReducer state (RECEIVE_CHUNK rid chunk) =
     state\<lparr>results :=
       map (\<lambda>r. if id' r = rid then r\<lparr>responseText := responseText r @ chunk\<rparr> else r)
         (results state)\<rparr>"
| "appReducer state (FINISH_STREAM rid m) =
     state\<lparr>results :=
       map (\<lambda>r. if id' r = rid then r\<lparr>isLoading := False, metrics := Some m\<rparr> else r)
         (results state)\<rparr>"
| "appReducer state (SET_ERROR rid e) =
     state\<lparr>results :=
       map (\<lambda>r. if id' r = rid then r\<lparr>isLoading := False, error := Some e\<rparr> else r)
         (results state)\<rparr>"
| "appReducer state FINISH_COMPARISON =
     state\<lparr>isLoading_app := False, raceState := Finished, countdownValue := None\<rparr>"
| "appReducer state RESET_RACE =
     state\<lparr>isLoading_app := False, results := [], raceState := Idle, countdownValue := None\<rparr>"
| "appReducer state (SET_RACE_STATE payload) = state\<lparr>raceState := payload\<rparr>"
| "appReducer state (SET_COUNTDOWN payload) = state\<lparr>countdownValue := payload\<rparr>"
| "appReducer state (SET_PROVIDER_ENABLED pid enabled) =
     state\<lparr>enabledProviders := (enabledProviders state)(pid \<mapsto> enabled)\<rparr>"
| "appReducer state (SET_RACE_CONFIG payload) = state\<lparr>raceConfig := payload\<rparr>"

section \<open>Platform values: JSON, exceptions, responses\<close>

text \<open>
  What \<^verbatim>\<open>JSON.parse\<close> returns.  An object is the list of its own properties; \<open>None\<close>
  of type \<open>json option\<close> stands for \<^verbatim>\<open>undefined\<close>.
\<close>

datatype json =
    JNull
  | JBool bool
  | JNum rat
  | JStr jsstr
  | JArr "json list"
  | JObj "(jsstr \<times> json) list"

text \<open>
  Exceptions: \<open>Error m\<close> is \<^verbatim>\<open>new Error(m)\<close> thrown by the repository's code,
  \<open>TypeError\<close> is a property read on \<^verbatim>\<open>null\<close> or \<^verbatim>\<open>undefined\<close>, and \<open>Rejected m\<close> is a
  rejection of \<^verbatim>\<open>fetch\<close> or \<^verbatim>\<open>reader.read()\<close> (a network failure, or the abort of the
  request through its signal).
\<close>

datatype exn = Error jsstr | TypeError | Rejected jsstr

text \<open>
  The body of a response as its reader delivers it: the byte arrays of the successive
  reads, then either \<^verbatim>\<open>{done: true}\<close> (\<open>failure = None\<close>) or a rejected read.
\<close>

record Reads =
  chunks :: "nat list list"
  failure :: "exn option"

record Response =
  ok :: bool
  status :: nat
  bodyText :: jsstr
  body :: "Reads option"

datatype AbortSignal = AbortSignal nat

record Request =
  url :: jsstr
  httpMethod :: jsstr
  headers :: "(jsstr \<times> jsstr) list"
  payload :: json
  signal :: "AbortSignal option"

text \<open>
  Everything the adapters take from their surroundings.  The \<^verbatim>\<open>TextDecoder\<close> is a
  byte-at-a-time machine (\<open>decoder_step\<close> from \<open>decoder_init\<close>) whose state survives between
  calls, which is what \<^verbatim>\<open>{stream: true}\<close> asks for; \<open>Date_now k\<close> is the value of the
  \<open>k\<close>-th call of \<^verbatim>\<open>Date.now()\<close> made by one \<^verbatim>\<open>generate\<close>; \<open>approxTokensFromText\<close> and
  \<open>finalTokenTotal\<close> are the functions of \<^verbatim>\<open>utils/tokens\<close>; \<open>ToString\<close> is the string
  conversion of a value that is not a string.
\<close>

record 'd world =
  decoder_step :: "'d \<Rightarrow> nat \<Rightarrow> 'd \<times> jsstr"
  decoder_init :: 'd
  JSON_parse :: "jsstr \<Rightarrow> json option"
  ToString :: "json \<Rightarrow> jsstr"
  Date_now :: "nat \<Rightarrow> int"
  fetch :: "Request \<Rightarrow> exn + Response"
  approxTokensFromText :: "jsstr \<Rightarrow> int"
  finalTokenTotal :: "jsstr \<Rightarrow> jsstr \<Rightarrow> int"

section \<open>String operations of the decoders\<close>

text \<open>\<^verbatim>\<open>decoder.decode(value, {stream: true})\<close> from decoder state \<open>d\<close>.\<close>

fun decode :: "('d \<Rightarrow> nat \<Rightarrow> 'd \<times> jsstr) \<Rightarrow> 'd \<Rightarrow> nat list \<Rightarrow> 'd \<times> jsstr" where
  "decode step d [] = (d, [])"
| "decode step d (b # bs) =
     (case step d b of (d1, out1) \<Rightarrow>
        (case decode step d1 bs of (d2, out2) \<Rightarrow> (d2, out1 @ out2)))"

text \<open>\<^verbatim>\<open>s.split('\n\n')\<close>: the separators are found from the left and do not overlap.\<close>

fun split_nn :: "jsstr \<Rightarrow> jsstr list" where
  "split_nn [] = [[]]"
| "split_nn [c] = [[c]]"
| "split_nn (c # d # cs) =
     (if c = 10 \<and> d = 10 then [] # split_nn cs
      else (case split_nn (d # cs) of
              [] \<Rightarrow> [[c]]
            | p # ps \<Rightarrow> (c # p) # ps))"

text \<open>White space and line terminators, as \<^verbatim>\<open>String.prototype.trim\<close> removes them.\<close>

definition isWhiteSpace :: "nat \<Rightarrow> bool" where
  "isWhiteSpace c \<longleftrightarrow>
     c = 9 \<or> c = 10 \<or> c = 11 \<or> c = 12 \<or> c = 13 \<or> c = 32 \<or> c = 160 \<or> c = 5760
   \<or> (8192 \<le> c \<and> c \<le> 8202) \<or> c = 8232 \<or> c = 8233 \<or> c = 8239 \<or> c = 8287
   \<or> c = 12288 \<or> c = 65279"

definition trim :: "jsstr \<Rightarrow> jsstr" where
  "trim s = rev (dropWhile isWhiteSpace (rev (dropWhile isWhiteSpace s)))"

text \<open>A number in a template literal: the decimal digits of a non-negative integer.\<close>

fun decimal :: "nat \<Rightarrow> jsstr" where
  "decimal n = (if n < 10 then [48 + n] else decimal (n div 10) @ [48 + n mod 10])"

section \<open>The stream decoders\<close>

subsection \<open>streamSSE (utils/providers/cerebras.ts): buffered\<close>

text \<open>
  The \<^verbatim>\<open>for (const part of parts)\<close> loop.  The result is the objects yielded and whether
  the \<^verbatim>\<open>[DONE]\<close> payload made the generator return.
\<close>

fun sse_parts :: "(jsstr \<Rightarrow> json option) \<Rightarrow> jsstr list \<Rightarrow> json list \<times> bool" where
  "sse_parts parse [] = ([], False)"
| "sse_parts parse (part # parts) =
     (if prefix (js ''data: '') part then
        (let data = trim (drop 6 part) in
         if data = js ''[DONE]'' then ([], True)
         else (case parse data of
                 None \<Rightarrow> sse_parts parse parts
               | Some v \<Rightarrow> (case sse_parts parse parts of (ys, fin) \<Rightarrow> (v # ys, fin))))
      else sse_parts parse parts)"

text \<open>
  The \<^verbatim>\<open>while (true)\<close> loop, from decoder state \<open>d\<close> and \<open>buffer\<close>.  The result is the
  objects yielded and the exception the generator ends with, if any.
\<close>

fun sse_loop ::
  "'d world \<Rightarrow> 'd \<Rightarrow> jsstr \<Rightarrow> nat list list \<Rightarrow> exn option \<Rightarrow> json list \<times> exn option" where
  "sse_loop w d buffer [] fl = ([], fl)"
| "sse_loop w d buffer (v # vs) fl =
     (case decode (decoder_step w) d v of (d', txt) \<Rightarrow>
        (let parts = split_nn (buffer @ txt) in
         case sse_parts (JSON_parse w) (butlast parts) of (ys, fin) \<Rightarrow>
           if fin then (ys, None)
           else (case sse_loop w d' (last parts) vs fl of (ys', t) \<Rightarrow> (ys @ ys', t))))"

definition streamSSE :: "'d world \<Rightarrow> Response \<Rightarrow> json list \<times> exn option" where
  "streamSSE w response =
     (case body response of
        None \<Rightarrow> ([], Some (Error (js ''No response body'')))
      | Some reader \<Rightarrow> sse_loop w (decoder_init w) [] (chunks reader) (failure reader))"

subsection \<open>streamOpenAIResponse (zhipu.ts, moonshot.ts): each read split on its own\<close>

fun openai_lines :: "(jsstr \<Rightarrow> json option) \<Rightarrow> jsstr list \<Rightarrow> json list \<times> bool" where
  "openai_lines parse [] = ([], False)"
| "openai_lines parse (line # lines) =
     (if prefix (js ''data: '') line then
        (let data = drop 6 line in
         if trim data = js ''[DONE]'' then ([], True)
         else (case parse data of
                 None \<Rightarrow> openai_lines parse lines
               | Some v \<Rightarrow> (case openai_lines parse lines of (ys, fin) \<Rightarrow> (v # ys, fin))))
      else openai_lines parse lines)"

fun openai_loop ::
  "'d world \<Rightarrow> 'd \<Rightarrow> nat list list \<Rightarrow> exn option \<Rightarrow> json list \<times> exn option" where
  "openai_loop w d [] fl = ([], fl)"
| "openai_loop w d (v # vs) fl =
     (case decode (decoder_step w) d v of (d', chunk) \<Rightarrow>
        (case openai_lines (JSON_parse w) (split_nn chunk) of (ys, fin) \<Rightarrow>
           if fin then (ys, None)
           else (case openai_loop w d' vs fl of (ys', t) \<Rightarrow> (ys @ ys', t))))"

definition streamOpenAIResponse :: "'d world \<Rightarrow> Response \<Rightarrow> json list \<times> exn option" where
  "streamOpenAIResponse w response =
     (case body response of
        None \<Rightarrow> ([], Some (Error (js ''No response body'')))
      | Some reader \<Rightarrow> openai_loop w (decoder_init w) (chunks reader) (failure reader))"

section \<open>Provider adapters\<close>

subsection \<open>Reading the text delta of a decoded event\<close>

text \<open>
  \<open>member name v\<close> is \<^verbatim>\<open>v.name\<close> and \<open>index0 v\<close> is \<^verbatim>\<open>v[0]\<close> for a value \<open>v\<close> that is
  neither \<^verbatim>\<open>null\<close> nor \<^verbatim>\<open>undefined\<close>; the names read below (choices, delta, content) are
  no built-in property of a string, number, boolean or array.
\<close>

fun member :: "jsstr \<Rightarrow> json \<Rightarrow> json option" where
  "member name (JObj kvs) = map_of kvs name"
| "member name v = None"

fun index0 :: "json \<Rightarrow> json option" where
  "index0 (JArr xs) = (case xs of [] \<Rightarrow> None | x # _ \<Rightarrow> Some x)"
| "index0 (JObj kvs) = map_of kvs (js ''0'')"
| "index0 (JStr s) = (case s of [] \<Rightarrow> None | c # _ \<Rightarrow> Some (JStr [c]))"
| "index0 v = None"

text \<open>The optional chains \<^verbatim>\<open>v?.name\<close> and \<^verbatim>\<open>v?.[0]\<close>.\<close>

definition opt_member :: "jsstr \<Rightarrow> json option \<Rightarrow> json option" where
  "opt_member name v = (case v of None \<Rightarrow> None | Some JNull \<Rightarrow> None | Some x \<Rightarrow> member name x)"

definition opt_index0 :: "json option \<Rightarrow> json option" where
  "opt_index0 v = (case v of None \<Rightarrow> None | Some JNull \<Rightarrow> None | Some x \<Rightarrow> index0 x)"

text \<open>cerebras.ts: \<^verbatim>\<open>chunk.choices?.[0]?.delta?.content\<close>.\<close>

definition cerebras_content :: "json \<Rightarrow> exn + json option" where
  "cerebras_content chunk =
     (if chunk = JNull then Inl TypeError
      else Inr (opt_member (js ''content'')
                 (opt_member (js ''delta'') (opt_index0 (member (js ''choices'') chunk)))))"

text \<open>zhipu.ts and moonshot.ts: \<^verbatim>\<open>chunk.choices[0]?.delta?.content\<close>.\<close>

definition zhipu_content :: "json \<Rightarrow> exn + json option" where
  "zhipu_content chunk =
     (if chunk = JNull then Inl TypeError
      else (case member (js ''choices'') chunk of
              None \<Rightarrow> Inl TypeError
            | Some JNull \<Rightarrow> Inl TypeError
            | Some choices \<Rightarrow>
                Inr (opt_member (js ''content'') (opt_member (js ''delta'') (index0 choices)))))"

fun truthy :: "json option \<Rightarrow> bool" where
  "truthy None = False"
| "truthy (Some JNull) = False"
| "truthy (Some (JBool b)) = b"
| "truthy (Some (JNum n)) = (n \<noteq> 0)"
| "truthy (Some (JStr s)) = (s \<noteq> [])"
| "truthy (Some (JArr xs)) = True"
| "truthy (Some (JObj kvs)) = True"

text \<open>The text that \<^verbatim>\<open>generatedText += content\<close> appends.\<close>

definition to_text :: "'d world \<Rightarrow> json option \<Rightarrow> jsstr" where
  "to_text w v = (case v of Some (JStr s) \<Rightarrow> s | Some x \<Rightarrow> ToString w x | None \<Rightarrow> [])"

text \<open>\<^verbatim>\<open>!firstTokenTime\<close>: the variable is \<^verbatim>\<open>undefined\<close> or zero.\<close>

definition unset :: "int option \<Rightarrow> bool" where
  "unset t \<longleftrightarrow> t = None \<or> t = Some 0"

subsection \<open>The streaming loop shared by the adapters\<close>

record GenState =
  g_firstTokenTime :: "int option"
  g_tokenCount :: int
  g_generatedText :: jsstr
  g_clock :: nat

text \<open>
  The \<^verbatim>\<open>for await (const chunk of ...)\<close> loop of \<^verbatim>\<open>generate\<close> over the decoded events;
  \<open>g_clock\<close> counts the calls of \<^verbatim>\<open>Date.now()\<close> made so far.
\<close>

fun generate_loop ::
  "'d world \<Rightarrow> (json \<Rightarrow> exn + json option) \<Rightarrow> json list \<Rightarrow> GenState
     \<Rightarrow> CompletionResult list \<times> GenState \<times> exn option" where
  "generate_loop w content_of [] st = ([], st, None)"
| "generate_loop w content_of (chunk # rest) st =
     (case content_of chunk of
        Inl e \<Rightarrow> ([], st, Some e)
      | Inr content \<Rightarrow>
          if truthy content then
            (let st1 = (if unset (g_firstTokenTime st)
                        then st\<lparr>g_firstTokenTime := Some (Date_now w (g_clock st)),
                                g_clock := Suc (g_clock st)\<rparr>
                        else st);
                 st2 = st1\<lparr>g_tokenCount := g_tokenCount st1 + 1,
                           g_generatedText := g_generatedText st1 @ to_text w content\<rparr>
             in case generate_loop w content_of rest st2 of
                  (evs, st3, t) \<Rightarrow> (Chunk (to_text w content) # evs, st3, t))
          else generate_loop w content_of rest st)"

text \<open>
  What follows the fetch in both adapters: the status check, the loop, and the final
  metrics event; \<open>decoded\<close> is the adapter's stream decoder applied to the response.
\<close>

definition generate_from ::
  "'d world \<Rightarrow> jsstr \<Rightarrow> (json \<Rightarrow> exn + json option) \<Rightarrow> ('d world \<Rightarrow> Response \<Rightarrow> json list \<times> exn option)
     \<Rightarrow> jsstr \<Rightarrow> Request \<Rightarrow> CompletionResult list \<times> exn option" where
  "generate_from w apiErrorPrefix content_of decoder prompt' request =
     (let startTime = Date_now w 0 in
      case fetch w request of
        Inl e \<Rightarrow> ([], Some e)
      | Inr response \<Rightarrow>
          if \<not> ok response then
            ([], Some (Error (apiErrorPrefix @ decimal (status response) @ js '' ''
                               @ bodyText response)))
          else
            (case decoder w response of (decoded, streamEnd) \<Rightarrow>
               (case generate_loop w content_of decoded
                       \<lparr>g_firstTokenTime = None, g_tokenCount = 0, g_generatedText = [],
                        g_clock = 1\<rparr> of
                  (evs, st, Some e) \<Rightarrow> (evs, Some e)
                | (evs, st, None) \<Rightarrow>
                    (case streamEnd of
                       Some e \<Rightarrow> (evs, Some e)
                     | None \<Rightarrow>
                         (evs @
                          [Metrics
                             \<lparr>startTime = startTime,
                              firstTokenTime = g_firstTokenTime st,
                              finishTime = Date_now w (g_clock st),
                              tokenCount = finalTokenTotal w prompt' (g_generatedText st),
                              inputTokens = Some (approxTokensFromText w prompt'),
                              outputTokens = Some (approxTokensFromText w (g_generatedText st))\<rparr>],
                          None)))))"

subsection \<open>The requests and the generate functions\<close>

text \<open>\<^verbatim>\<open>settings?.field ?? fallback\<close>.\<close>

definition setting :: "(ModelSettings \<Rightarrow> 'a) \<Rightarrow> 'a \<Rightarrow> ModelSettings option \<Rightarrow> 'a" where
  "setting field fallback settings = (case settings of None \<Rightarrow> fallback | Some st \<Rightarrow> field st)"

definition userMessages :: "jsstr \<Rightarrow> json" where
  "userMessages prompt' =
     JArr [JObj [(js ''role'', JStr (js ''user'')), (js ''content'', JStr prompt')]]"

definition cerebras_request ::
  "jsstr \<Rightarrow> jsstr \<Rightarrow> jsstr \<Rightarrow> AbortSignal option \<Rightarrow> ModelSettings option \<Rightarrow> Request" where
  "cerebras_request prompt' model apiKey signal' settings =
     \<lparr> url = js ''https://api.cerebras.ai/v1/chat/completions'',
       httpMethod = js ''POST'',
       headers = [(js ''Content-Type'', js ''application/json''),
                  (js ''Authorization'', js ''Bearer '' @ apiKey),
                  (js ''Accept'', js ''text/event-stream'')],
       payload = JObj [(js ''model'', JStr model),
                       (js ''messages'', userMessages prompt'),
                       (js ''stream'', JBool True),
                       (js ''temperature'', JNum (setting temperature (7 / 10) settings)),
                       (js ''max_tokens'', JNum (of_int (setting maxTokens 2048 settings))),
                       (js ''top_p'', JNum (setting topP 1 settings))],
       signal = signal' \<rparr>"

definition zhipu_request ::
  "jsstr \<Rightarrow> jsstr \<Rightarrow> jsstr \<Rightarrow> AbortSignal option \<Rightarrow> ModelSettings option \<Rightarrow> Request" where
  "zhipu_request prompt' model apiKey signal' settings =
     \<lparr> url = js ''https://open.bigmodel.cn/api/paas/v4/chat/completions'',
       httpMethod = js ''POST'',
       headers = [(js ''Content-Type'', js ''application/json''),
                  (js ''Authorization'', js ''Bearer '' @ apiKey)],
       payload = JObj ([(js ''model'', JStr model),
                        (js ''messages'', userMessages prompt'),
                        (js ''stream'', JBool True),
                        (js ''temperature'', JNum (setting temperature (7 / 10) settings)),
                        (js ''max_tokens'', JNum (of_int (setting maxTokens 4096 settings))),
                        (js ''top_p'', JNum (setting topP 1 settings))]
                       @ (if sublist (js ''thinking'') model
                          then [(js ''do_sample'', JBool True)] else [])),
       signal = signal' \<rparr>"

text \<open>moonshot.ts; \<^verbatim>\<open>settings?.reasoningEffort ?? 'medium'\<close> for the Kimi 2 and thinking models.\<close>

definition effortName :: "ReasoningEffort \<Rightarrow> jsstr" where
  "effortName e = (case e of Low \<Rightarrow> js ''low'' | Medium \<Rightarrow> js ''medium'' | High \<Rightarrow> js ''high'')"

definition moonshot_request ::
  "jsstr \<Rightarrow> jsstr \<Rightarrow> jsstr \<Rightarrow> AbortSignal option \<Rightarrow> ModelSettings option \<Rightarrow> Request" where
  "moonshot_request prompt' model apiKey signal' settings =
     \<lparr> url = js ''https://api.moonshot.ai/v1/chat/completions'',
       httpMethod = js ''POST'',
       headers = [(js ''Content-Type'', js ''application/json''),
                  (js ''Authorization'', js ''Bearer '' @ apiKey)],
       payload = JObj ([(js ''model'', JStr model),
                        (js ''messages'', userMessages prompt'),
                        (js ''stream'', JBool True),
                        (js ''temperature'', JNum (setting temperature (3 / 10) settings)),
                        (js ''max_tokens'', JNum (of_int (setting maxTokens 4096 settings))),
                        (js ''top_p'', JNum (setting topP 1 settings))]
                       @ (if sublist (js ''k2'') model \<or> sublist (js ''thinking'') model
                          then [(js ''reasoning_effort'',
                                 JStr (case setting reasoningEffort None settings of
                                         None \<Rightarrow> js ''medium''
                                       | Some e \<Rightarrow> effortName e))]
                          else [])),
       signal = signal' \<rparr>"

definition generate_cerebras ::
  "'d world \<Rightarrow> jsstr \<Rightarrow> jsstr \<Rightarrow> jsstr \<Rightarrow> AbortSignal option \<Rightarrow> ModelSettings option
     \<Rightarrow> CompletionResult list \<times> exn option" where
  "generate_cerebras w prompt' model apiKey signal' settings =
     generate_from w (js ''Cerebras API error: '') cerebras_content streamSSE prompt'
       (cerebras_request prompt' model apiKey signal' settings)"

definition generate_zhipu ::
  "'d world \<Rightarrow> jsstr \<Rightarrow> jsstr \<Rightarrow> jsstr \<Rightarrow> AbortSignal option \<Rightarrow> ModelSettings option
     \<Rightarrow> CompletionResult list \<times> exn option" where
  "generate_zhipu w prompt' model apiKey signal' settings =
     generate_from w (js ''Zhipu API error: '') zhipu_content streamOpenAIResponse prompt'
       (zhipu_request prompt' model apiKey signal' settings)"

text \<open>
  The Moonshot adapter reads the delta with the same expression as the Zhipu adapter and
  has the same unbuffered decoder.
\<close>

definition generate_moonshot ::
  "'d world \<Rightarrow> jsstr \<Rightarrow> jsstr \<Rightarrow> jsstr \<Rightarrow> AbortSignal option \<Rightarrow> ModelSettings option
     \<Rightarrow> CompletionResult list \<times> exn option" where
  "generate_moonshot w prompt' model apiKey signal' settings =
     generate_from w (js ''Moonshot API error: '') zhipu_content streamOpenAIResponse prompt'
       (moonshot_request prompt' model apiKey signal' settings)"

section \<open>The race orchestrator (handleRunComparison)\<close>

text \<open>
  \<^verbatim>\<open>state.apiKeys\<close> is a plain object, so \<^verbatim>\<open>state.apiKeys[p.providerId]\<close> finds the key stored
  under the provider id and, when none is stored, the member of \<^verbatim>\<open>Object.prototype\<close> of
  that name, if there is one; every such member is a function or an object.  The value
  found is a stored string or such a member.
\<close>

definition objectPrototypeMembers :: "jsstr list" where
  "objectPrototypeMembers =
     [js ''constructor'', js ''hasOwnProperty'', js ''isPrototypeOf'',
      js ''propertyIsEnumerable'', js ''toLocaleString'', js ''toString'', js ''valueOf'',
      js ''__proto__'', js ''__defineGetter__'', js ''__defineSetter__'',
      js ''__lookupGetter__'', js ''__lookupSetter__'']"

datatype KeyArg = KeyString jsstr | InheritedMember jsstr

text \<open>
  The five arguments of the call \<^verbatim>\<open>streamCompletion(p.providerId, state.prompt, p.modelId,
  apiKey, modelSettings)\<close>, and the stream it returns as the lane's loop sees it: the events
  in order, then the natural end or an exception, of which only the message is used.
\<close>

record StreamCall =
  call_providerId :: jsstr
  call_prompt :: jsstr
  call_modelId :: jsstr
  call_apiKey :: KeyArg
  call_settings :: ModelSettings

record LaneStream =
  events :: "CompletionResult list"
  thrown :: "jsstr option"

text \<open>
  The surroundings of one run: the reduced-motion preference, the value of
  \<^verbatim>\<open>Date.now()\<close> stored in \<^verbatim>\<open>raceStartTime\<close>, the Completion Client of
  \<^verbatim>\<open>utils/apiClient\<close>, and for each lane the values of its later calls of
  \<^verbatim>\<open>Date.now()\<close> in order.
\<close>

record RaceEnv =
  reduceMotion :: bool
  raceStartTime :: int
  streamCompletion :: "StreamCall \<Rightarrow> LaneStream"
  laneClock :: "Pair \<Rightarrow> nat \<Rightarrow> int"

record LoopState =
  l_tokenCount :: int
  l_sawMetrics :: bool
  l_clock :: nat

text \<open>A limit that is set: \<^verbatim>\<open>tokenLimit && ...\<close> passes for a number other than zero.\<close>

definition limitSet :: "int option \<Rightarrow> int option" where
  "limitSet l = (case l of None \<Rightarrow> None | Some n \<Rightarrow> if n = 0 then None else Some n)"

text \<open>
  The two limit checks at the head of the loop body: the state after them and whether
  they \<^verbatim>\<open>break\<close>.
\<close>

definition limitCheck :: "RaceConfig \<Rightarrow> int \<Rightarrow> (nat \<Rightarrow> int) \<Rightarrow> LoopState \<Rightarrow> LoopState \<times> bool" where
  "limitCheck cfg start clk st =
     (case (if mode cfg = Token_limit then limitSet (tokenLimit cfg) else None) of
        Some n \<Rightarrow> if n \<le> l_tokenCount st then (st, True) else (st, False)
      | None \<Rightarrow>
         (case (if mode cfg = Time_limit then limitSet (timeLimit cfg) else None) of
            Some n \<Rightarrow>
              (let elapsed = rat_of_int (clk (l_clock st) - start) / 1000
               in (st\<lparr>l_clock := Suc (l_clock st)\<rparr>, rat_of_int n \<le> elapsed))
          | None \<Rightarrow> (st, False)))"

text \<open>
  The \<^verbatim>\<open>for await (const result of stream)\<close> loop: the actions dispatched, the final
  values of the local variables, and whether the loop was left by \<^verbatim>\<open>break\<close>.
\<close>

fun laneLoop ::
  "RaceConfig \<Rightarrow> int \<Rightarrow> (nat \<Rightarrow> int) \<Rightarrow> jsstr \<Rightarrow> CompletionResult list \<Rightarrow> LoopState
     \<Rightarrow> AppAction list \<times> LoopState \<times> bool" where
  "laneLoop cfg start clk rid [] st = ([], st, False)"
| "laneLoop cfg start clk rid (result # rest) st =
     (case limitCheck cfg start clk st of
        (st1, True) \<Rightarrow> ([], st1, True)
      | (st1, False) \<Rightarrow>
          (case result of
             Chunk content \<Rightarrow>
               (case laneLoop cfg start clk rid rest (st1\<lparr>l_tokenCount := l_tokenCount st1 + 1\<rparr>) of
                  (acts, st2, broke) \<Rightarrow> (RECEIVE_CHUNK rid content # acts, st2, broke))
           | Metrics data \<Rightarrow>
               (case laneLoop cfg start clk rid rest (st1\<lparr>l_sawMetrics := True\<rparr>) of
                  (acts, st2, broke) \<Rightarrow> (FINISH_STREAM rid data # acts, st2, broke))))"

text \<open>The metrics built when the loop ended without a metrics event in a limited race.\<close>

definition syntheticMetrics :: "int \<Rightarrow> int \<Rightarrow> int \<Rightarrow> CompletionMetrics" where
  "syntheticMetrics start finish count =
     \<lparr> startTime = start, firstTokenTime = Some (start + 100), finishTime = finish,
       tokenCount = count, inputTokens = None, outputTokens = Some count \<rparr>"

text \<open>No key is stored for the provider, or the empty string is.\<close>

definition noKey :: "jsstr option \<Rightarrow> bool" where
  "noKey k \<longleftrightarrow> k = None \<or> k = Some []"

text \<open>The call of a lane with a stored key, and with an inherited member in its place.\<close>

definition laneCall :: "AppState \<Rightarrow> Pair \<Rightarrow> jsstr \<Rightarrow> StreamCall" where
  "laneCall state p apiKey =
     \<lparr> call_providerId = providerId p, call_prompt = prompt state, call_modelId = modelId p,
       call_apiKey = KeyString apiKey, call_settings = modelSettings (raceConfig state) \<rparr>"

definition laneCallInherited :: "AppState \<Rightarrow> Pair \<Rightarrow> StreamCall" where
  "laneCallInherited state p =
     \<lparr> call_providerId = providerId p, call_prompt = prompt state, call_modelId = modelId p,
       call_apiKey = InheritedMember (providerId p),
       call_settings = modelSettings (raceConfig state) \<rparr>"

text \<open>What happens after the loop, inside the \<^verbatim>\<open>try\<close>, and in the \<^verbatim>\<open>catch\<close>.\<close>

definition laneEnd ::
  "RaceConfig \<Rightarrow> int \<Rightarrow> (nat \<Rightarrow> int) \<Rightarrow> jsstr \<Rightarrow> jsstr option \<Rightarrow> LoopState \<times> bool
     \<Rightarrow> AppAction list" where
  "laneEnd cfg start clk rid failed loopEnd =
     (case loopEnd of (st, broke) \<Rightarrow>
        (case (if broke then None else failed) of
           Some message \<Rightarrow> [SET_ERROR rid message]
         | None \<Rightarrow>
             if \<not> l_sawMetrics st then
               (if mode cfg = Token_limit \<or> mode cfg = Time_limit
                then [FINISH_STREAM rid
                        (syntheticMetrics start (clk (l_clock st)) (l_tokenCount st))]
                else [SET_ERROR rid (js ''Stream ended without metrics'')])
             else []))"

text \<open>The \<^verbatim>\<open>try\<close> block of a lane with its \<^verbatim>\<open>catch\<close>, for the call made.\<close>

definition laneRun :: "RaceEnv \<Rightarrow> AppState \<Rightarrow> Pair \<Rightarrow> StreamCall \<Rightarrow> AppAction list" where
  "laneRun env state p call =
     (let rid = resultId p; cfg = raceConfig state;
          stream = streamCompletion env call in
      case laneLoop cfg (raceStartTime env) (laneClock env p) rid (events stream)
             \<lparr>l_tokenCount = 0, l_sawMetrics = False, l_clock = 0\<rparr> of
        (acts, loopEnd) \<Rightarrow>
          acts @ laneEnd cfg (raceStartTime env) (laneClock env p) rid (thrown stream) loopEnd)"

text \<open>
  The task of one lane: the actions it dispatches, in order.  \<^verbatim>\<open>!apiKey\<close> holds when the
  lookup finds nothing or the empty string; an inherited member passes the guard.
\<close>

definition laneTask :: "RaceEnv \<Rightarrow> AppState \<Rightarrow> Pair \<Rightarrow> AppAction list" where
  "laneTask env state p =
     (case apiKeys state (providerId p) of
        Some apiKey \<Rightarrow>
          if apiKey = [] then [SET_ERROR (resultId p) (js ''API Key not set'')]
          else laneRun env state p (laneCall state p apiKey)
      | None \<Rightarrow>
          if providerId p \<in> set objectPrototypeMembers
          then laneRun env state p (laneCallInherited state p)
          else [SET_ERROR (resultId p) (js ''API Key not set'')])"

text \<open>The pairs that get a lane, and the actions dispatched before the lanes start.\<close>

text \<open>
  \<^verbatim>\<open>state.enabledProviders[p.providerId] !== false\<close>: no inherited member is
  \<^verbatim>\<open>false\<close>, so only a stored \<^verbatim>\<open>false\<close> disables a provider.
\<close>

definition providersToTest :: "AppState \<Rightarrow> Pair list" where
  "providersToTest state =
     filter (\<lambda>p. enabledProviders state (providerId p) \<noteq> Some False) (selectedPairs state)"

definition countdown :: "bool \<Rightarrow> AppAction list" where
  "countdown reduce =
     (if reduce then [SET_RACE_STATE Racing, SET_COUNTDOWN None]
      else [SET_RACE_STATE CountingDown,
            SET_COUNTDOWN (Some (CountNum 3)), SET_COUNTDOWN (Some (CountNum 2)),
            SET_COUNTDOWN (Some (CountNum 1)), SET_COUNTDOWN (Some CountGo),
            SET_RACE_STATE Racing, SET_COUNTDOWN None])"

text \<open>
  The lanes run as independent tasks under \<^verbatim>\<open>Promise.all\<close>: their dispatches reach the
  reducer in any order that keeps the order within each lane.
\<close>

inductive interleaving :: "'a list list \<Rightarrow> 'a list \<Rightarrow> bool" where
  all_done: "\<forall>xs \<in> set xss. xs = [] \<Longrightarrow> interleaving xss []"
| one_more: "i < length xss \<Longrightarrow> xss ! i = a # rest \<Longrightarrow> interleaving (xss[i := rest]) zs
         \<Longrightarrow> interleaving xss (a # zs)"

text \<open>\<open>handleRunComparison env state acts\<close>: one run may dispatch exactly the actions \<open>acts\<close>.\<close>

inductive handleRunComparison :: "RaceEnv \<Rightarrow> AppState \<Rightarrow> AppAction list \<Rightarrow> bool" where
  nothing: "providersToTest state = [] \<Longrightarrow> handleRunComparison env state []"
| race: "providersToTest state \<noteq> [] \<Longrightarrow>
         interleaving (map (laneTask env state) (providersToTest state)) lanes \<Longrightarrow>
         handleRunComparison env state
           (START_COMPARISON (providersToTest state) # countdown (reduceMotion env)
              @ lanes @ [FINISH_COMPARISON])"

text \<open>The state after a sequence of dispatches.\<close>

definition dispatchAll :: "AppState \<Rightarrow> AppAction list \<Rightarrow> AppState" where
  "dispatchAll state acts = foldl appReducer state acts"


section \<open>Notions used in the statements\<close>

text \<open>
  \<open>lane_frame rid f s s'\<close>: from \<open>s\<close> to \<open>s'\<close> exactly the lanes with id \<open>rid\<close> changed, by
  \<open>f\<close>; nothing but the result list changed; with no such lane the state is the same; and
  with distinct lane ids at most one position of the result list differs.
\<close>

definition lane_frame ::
  "jsstr \<Rightarrow> (ResultState \<Rightarrow> ResultState) \<Rightarrow> AppState \<Rightarrow> AppState \<Rightarrow> bool" where
  "lane_frame rid f s s' \<longleftrightarrow>
     results s' = map (\<lambda>r. if id' r = rid then f r else r) (results s)
   \<and> s' = s\<lparr>results := results s'\<rparr>
   \<and> ((\<forall>r\<in>set (results s). id' r \<noteq> rid) \<longrightarrow> s' = s)
   \<and> (distinct (map id' (results s)) \<longrightarrow>
        (\<forall>i<length (results s). \<forall>j<length (results s).
           results s' ! i \<noteq> results s ! i \<and> results s' ! j \<noteq> results s ! j \<longrightarrow> i = j))"

section \<open>Concrete surroundings for the examples\<close>

text \<open>
  The examples use ASCII streams, on which the UTF-8 decoder emits each byte as one code
  unit and keeps no state, and a fragment of \<^verbatim>\<open>JSON.parse\<close> that knows the texts below.
\<close>

definition demo_parse :: "jsstr \<Rightarrow> json option" where
  \<open>demo_parse s =
     (if s = js ''{"choices":[{"delta":{"content":"Hi"}}]}''
      then Some (JObj [(js ''choices'',
                        JArr [JObj [(js ''delta'', JObj [(js ''content'', JStr (js ''Hi''))])]])])
      else if s = js ''{"choices":[{"delta":{"content":"!"}}]}''
      then Some (JObj [(js ''choices'',
                        JArr [JObj [(js ''delta'', JObj [(js ''content'', JStr (js ''!''))])]])])
      else if s = js ''{}'' then Some (JObj [])
      else None)\<close>

definition streaming :: "nat list list \<Rightarrow> Response" where
  "streaming vs = \<lparr> ok = True, status = 200, bodyText = [],
                    body = Some \<lparr> chunks = vs, failure = None \<rparr> \<rparr>"

definition demo_fetch :: "Request \<Rightarrow> exn + Response" where
  \<open>demo_fetch r =
     Inr (streaming [js ''data: {"choices":[{"delta":{"content":"Hi"}}]}\<newline>\<newline>'',
                     js ''data: {"choices":[{"delta":{"content":"!"}}]}\<newline>\<newline>'',
                     js ''data: [DONE]\<newline>\<newline>''])\<close>

definition demo_world :: "unit world" where
  "demo_world =
     \<lparr> decoder_step = (\<lambda>d b. (d, [b])), decoder_init = (),
       JSON_parse = demo_parse, ToString = (\<lambda>v. []),
       Date_now = (\<lambda>k. 1000 + 10 * int k), fetch = demo_fetch,
       approxTokensFromText = (\<lambda>s. (int (length s) + 3) div 4),
       finalTokenTotal = (\<lambda>p g. (int (length p) + 3) div 4 + (int (length g) + 3) div 4) \<rparr>"

definition lane :: "string \<Rightarrow> string \<Rightarrow> ResultState" where
  "lane p m = stagedLane \<lparr> providerId = js p, modelId = js m \<rparr>"

definition demo_settings :: ModelSettings where
  "demo_settings = \<lparr> temperature = 7 / 10, maxTokens = 2048, topP = 1, reasoningEffort = None \<rparr>"

definition demo_config :: "RaceMode \<Rightarrow> RaceConfig" where
  "demo_config m = \<lparr> mode = m, tokenLimit = Some 1, timeLimit = Some 30,
                      modelSettings = demo_settings, excludedReasoningModels = None \<rparr>"

text \<open>Two selected pairs, a key for the first provider only, both lanes staged.\<close>

definition demo_state :: "RaceMode \<Rightarrow> AppState" where
  "demo_state m =
     \<lparr> prompt = js ''Hello'', isLoading_app = False,
       apiKeys = [js ''cerebras'' \<mapsto> js ''sk-1''],
       selectedPairs = [\<lparr> providerId = js ''cerebras'', modelId = js ''llama3.1-8b'' \<rparr>,
                        \<lparr> providerId = js ''zhipu'', modelId = js ''glm-4'' \<rparr>],
       results = [lane ''cerebras'' ''llama3.1-8b'', lane ''zhipu'' ''glm-4''],
       raceState = Idle, countdownValue = None,
       enabledProviders = Map.empty,
       raceConfig = demo_config m \<rparr>"

text \<open>
  A data segment of the wire format: the prefix, the payload and the blank line; and the
  text that the decoder produces from a sequence of reads.
\<close>

definition dataSegment :: "jsstr \<Rightarrow> jsstr" where
  "dataSegment p = js ''data: '' @ p @ [10, 10]"

text \<open>
  The texts that the decoder returns for the successive reads, and the lines that the
  unbuffered decoder goes through: those of the first read, then those of the second,
  and so on.
\<close>

fun read_texts :: "('d \<Rightarrow> nat \<Rightarrow> 'd \<times> jsstr) \<Rightarrow> 'd \<Rightarrow> nat list list \<Rightarrow> jsstr list" where
  "read_texts step d [] = []"
| "read_texts step d (v # vs) =
     (case decode step d v of (d', txt) \<Rightarrow> txt # read_texts step d' vs)"

definition read_lines :: "'d world \<Rightarrow> nat list list \<Rightarrow> jsstr list" where
  "read_lines w vs =
     concat (map split_nn (read_texts (decoder_step w) (decoder_init w) vs))"

definition decoded :: "'d world \<Rightarrow> nat list list \<Rightarrow> jsstr" where
  "decoded w vs = snd (decode (decoder_step w) (decoder_init w) (concat vs))"

text \<open>
  The shape of what one \<^verbatim>\<open>generate\<close> yields, with the exception it ends with, if any:
  at most one metrics event; a metrics event is the last event; a run that ends with an
  exception yields no metrics event; a run that ends normally ends with one.
\<close>

definition isMetrics :: "CompletionResult \<Rightarrow> bool" where
  "isMetrics e = (case e of Metrics m \<Rightarrow> True | Chunk c \<Rightarrow> False)"


text \<open>The order of the three timestamps, when the first-token time is there.\<close>

definition metrics_ordered :: "CompletionMetrics \<Rightarrow> bool" where
  "metrics_ordered m =
     (case firstTokenTime m of
        None \<Rightarrow> True
      | Some f \<Rightarrow> startTime m \<le> f \<and> f \<le> finishTime m)"


text \<open>
  A run of the race for the examples: the Completion Client returns two chunks and the
  metrics event for every call; the race starts at 1000.  In \<open>demo_env\<close> the lane's first
  clock value is 1020; in \<open>slow_env\<close> the lane's clock values are 6000, 32001, 32002.
\<close>

definition demo_stream :: LaneStream where
  "demo_stream =
     \<lparr> events = [Chunk (js ''Hi''), Chunk (js ''!''),
                 Metrics \<lparr> startTime = 1000, firstTokenTime = Some 1010, finishTime = 1020,
                           tokenCount = 3, inputTokens = Some 2, outputTokens = Some 1 \<rparr>],
       thrown = None \<rparr>"

definition demo_env :: RaceEnv where
  "demo_env = \<lparr> reduceMotion = True, raceStartTime = 1000,
                 streamCompletion = (\<lambda>c. demo_stream),
                 laneClock = (\<lambda>p k. 1020 + int k) \<rparr>"

definition slow_env :: RaceEnv where
  "slow_env = \<lparr> reduceMotion = True, raceStartTime = 1000,
                 streamCompletion = (\<lambda>c. demo_stream),
                 laneClock = (\<lambda>p k. if k = 0 then 6000 else 32000 + int k) \<rparr>"

definition cerebras_pair :: Pair where
  "cerebras_pair = \<lparr> providerId = js ''cerebras'', modelId = js ''llama3.1-8b'' \<rparr>"

definition zhipu_pair :: Pair where
  "zhipu_pair = \<lparr> providerId = js ''zhipu'', modelId = js ''glm-4'' \<rparr>"

text \<open>
  A race of four lanes in drag mode, for the examples: the stream of the first lane ends
  with its metrics event, the request of the second is answered with HTTP 401, the stream
  of the third gives one chunk and ends without a metrics event, and no key is stored for
  the provider of the fourth.
\<close>

definition moonshot_pair :: Pair where
  "moonshot_pair = \<lparr> providerId = js ''moonshot'', modelId = js ''kimi-k2'' \<rparr>"

definition groq_pair :: Pair where
  "groq_pair = \<lparr> providerId = js ''groq'', modelId = js ''llama3'' \<rparr>"

definition mixed_client :: "StreamCall \<Rightarrow> LaneStream" where
  "mixed_client c =
     (if call_providerId c = js ''zhipu''
      then \<lparr> events = [], thrown = Some (js ''Zhipu API error: 401 Unauthorized'') \<rparr>
      else if call_providerId c = js ''moonshot''
      then \<lparr> events = [Chunk (js ''Hi'')], thrown = None \<rparr>
      else demo_stream)"

definition mixed_env :: RaceEnv where
  "mixed_env = \<lparr> reduceMotion = True, raceStartTime = 1000,
                  streamCompletion = mixed_client,
                  laneClock = (\<lambda>p k. 1020 + int k) \<rparr>"

definition mixed_state :: AppState where
  "mixed_state =
     \<lparr> prompt = js ''Hello'', isLoading_app = False,
       apiKeys = [js ''cerebras'' \<mapsto> js ''sk-1'', js ''zhipu'' \<mapsto> js ''sk-2'',
                  js ''moonshot'' \<mapsto> js ''sk-3''],
       selectedPairs = [cerebras_pair, zhipu_pair, moonshot_pair, groq_pair],
       results = [],
       raceState = Idle, countdownValue = None,
       enabledProviders = Map.empty,
       raceConfig = demo_config Drag \<rparr>"

text \<open>The chunk actions among a lane's dispatches.\<close>

definition isReceive :: "AppAction \<Rightarrow> bool" where
  "isReceive a = (case a of RECEIVE_CHUNK rid c \<Rightarrow> True | _ \<Rightarrow> False)"

definition loopStart :: LoopState where
  "loopStart = \<lparr>l_tokenCount = 0, l_sawMetrics = False, l_clock = 0\<rparr>"

text \<open>
  The lane an action is addressed to, and a lane as it ends when its task runs alone:
  the reducer applied to the lane's own dispatches, from the staged lane.
\<close>

fun target :: "AppAction \<Rightarrow> jsstr option" where
  "target (RECEIVE_CHUNK rid c) = Some rid"
| "target (FINISH_STREAM rid m) = Some rid"
| "target (SET_ERROR rid e) = Some rid"
| "target a = None"

text \<open>What the reducer does to a single lane result on a lane action.\<close>

fun laneApply :: "AppAction \<Rightarrow> ResultState \<Rightarrow> ResultState" where
  "laneApply (RECEIVE_CHUNK rid c) r =
     (if id' r = rid then r\<lparr>responseText := responseText r @ c\<rparr> else r)"
| "laneApply (FINISH_STREAM rid m) r =
     (if id' r = rid then r\<lparr>isLoading := False, metrics := Some m\<rparr> else r)"
| "laneApply (SET_ERROR rid e) r =
     (if id' r = rid then r\<lparr>isLoading := False, error := Some e\<rparr> else r)"
| "laneApply a r = r"

definition laneAlone :: "AppState \<Rightarrow> Pair \<Rightarrow> AppAction list \<Rightarrow> ResultState" where
  "laneAlone s p acts = hd (results (dispatchAll (s\<lparr>results := [stagedLane p]\<rparr>) acts))"


section \<open>The Completion Client\<close>

text \<open>
  \<^verbatim>\<open>streamCompletion\<close> of \<^verbatim>\<open>utils/apiClient\<close> and the registry of
  \<^verbatim>\<open>utils/providerService\<close> are not among the sources.  The adapters that the sources
  register are those of the provider ids \<^verbatim>\<open>cerebras\<close>, \<^verbatim>\<open>zhipu\<close> and \<^verbatim>\<open>moonshot\<close>.
\<close>

datatype Adapter = Cerebras | Zhipu | Moonshot








section \<open>The reducer changes one lane only\<close>

lemma map_if_id_none:
  "\<forall>r\<in>set xs. id' r \<noteq> rid \<Longrightarrow> map (\<lambda>r. if id' r = rid then f r else r) xs = xs"
  by (induction xs) auto

lemma distinct_ids_one_change:
  assumes d: "distinct (map id' xs)"
    and i: "i < length xs" and j: "j < length xs"
    and ci: "map (\<lambda>r. if id' r = rid then f r else r) xs ! i \<noteq> xs ! i"
    and cj: "map (\<lambda>r. if id' r = rid then f r else r) xs ! j \<noteq> xs ! j"
  shows "i = j"
proof -
  from i ci have "id' (xs ! i) = rid" by (auto split: if_splits)
  moreover from j cj have "id' (xs ! j) = rid" by (auto split: if_splits)
  ultimately have e: "map id' xs ! i = map id' xs ! j" using i j by simp
  have "(map id' xs ! i = map id' xs ! j) = (i = j)"
    using d i j by (intro nth_eq_iff_index_eq) simp_all
  with e show ?thesis by simp
qed

lemma lane_frameI:
  assumes "results s' = map (\<lambda>r. if id' r = rid then f r else r) (results s)"
    and "s' = s\<lparr>results := results s'\<rparr>"
  shows "lane_frame rid f s s'"
proof -
  have a: "(\<forall>r\<in>set (results s). id' r \<noteq> rid) \<longrightarrow> s' = s"
  proof
    assume "\<forall>r\<in>set (results s). id' r \<noteq> rid"
    then have "results s' = results s" using assms(1) by (simp add: map_if_id_none)
    with assms(2) show "s' = s" by simp
  qed
  have b: "distinct (map id' (results s)) \<longrightarrow>
        (\<forall>i<length (results s). \<forall>j<length (results s).
           results s' ! i \<noteq> results s ! i \<and> results s' ! j \<noteq> results s ! j \<longrightarrow> i = j)"
    unfolding assms(1) using distinct_ids_one_change by blast
  show ?thesis unfolding lane_frame_def using assms a b by blast
qed

text \<open>
  C10.  For every state and every RECEIVE_CHUNK, FINISH_STREAM or SET_ERROR action, the
  reducer changes only lane results whose id is the action's resultId: it appends the
  chunk to the response text, or sets the metrics, or sets the error, and clears
  isLoading in the last two cases.  Every other lane result and every other field of the
  state is unchanged; if no lane has that id the whole state is unchanged; and when the
  lane ids are distinct at most one lane result differs.
\<close>

theorem appReducer_lane_frame:
  "lane_frame rid (\<lambda>r. r\<lparr>responseText := responseText r @ chunk\<rparr>) s
     (appReducer s (RECEIVE_CHUNK rid chunk))
 \<and> lane_frame rid (\<lambda>r. r\<lparr>isLoading := False, metrics := Some m\<rparr>) s
     (appReducer s (FINISH_STREAM rid m))
 \<and> lane_frame rid (\<lambda>r. r\<lparr>isLoading := False, error := Some e\<rparr>) s
     (appReducer s (SET_ERROR rid e))"
  by (intro conjI lane_frameI) simp_all

theorem appReducer_lane_frame_witness:
  "distinct (map id' (results (demo_state Drag)))
 \<and> id' (results (demo_state Drag) ! 0) \<noteq> js ''groq-x''
 \<and> id' (results (demo_state Drag) ! 1) \<noteq> js ''groq-x''
 \<and> appReducer (demo_state Drag) (RECEIVE_CHUNK (js ''groq-x'') (js ''Hi'')) = demo_state Drag
 \<and> results (appReducer (demo_state Drag) (SET_ERROR (js ''zhipu-glm-4'') (js ''boom''))) ! 1
      = (lane ''zhipu'' ''glm-4'')\<lparr>isLoading := False, error := Some (js ''boom'')\<rparr>
 \<and> results (appReducer (demo_state Drag) (SET_ERROR (js ''zhipu-glm-4'') (js ''boom''))) ! 0
      = results (demo_state Drag) ! 0"
proof -
  let ?s = "demo_state Drag"
  let ?s' = "appReducer ?s (SET_ERROR (js ''zhipu-glm-4'') (js ''boom''))"
  have res: "results ?s = [lane ''cerebras'' ''llama3.1-8b'', lane ''zhipu'' ''glm-4'']"
    by (simp add: demo_state_def)
  have d: "distinct (map id' (results ?s))"
    unfolding res by (simp add: lane_def stagedLane_def resultId_def js_def)
  have none: "\<forall>r\<in>set (results ?s). id' r \<noteq> js ''groq-x''"
    unfolding res by (simp add: lane_def stagedLane_def resultId_def js_def)
  have same: "appReducer ?s (RECEIVE_CHUNK (js ''groq-x'') (js ''Hi'')) = ?s"
    using appReducer_lane_frame[of "js ''groq-x''" "js ''Hi''" ?s "syntheticMetrics 0 0 0" "[]"]
      none unfolding lane_frame_def by blast
  note fr = appReducer_lane_frame[of "js ''zhipu-glm-4''" "[]" ?s "syntheticMetrics 0 0 0"
      "js ''boom''"]
  have one: "results ?s' ! 1
      = (lane ''zhipu'' ''glm-4'')\<lparr>isLoading := False, error := Some (js ''boom'')\<rparr>"
    using fr unfolding lane_frame_def
    by (simp add: res lane_def stagedLane_def resultId_def js_def)
  have changed: "results ?s' ! 1 \<noteq> results ?s ! 1"
    unfolding one by (simp add: res lane_def stagedLane_def)
  have q: "\<forall>i<length (results ?s). \<forall>j<length (results ?s).
          results ?s' ! i \<noteq> results ?s ! i \<and> results ?s' ! j \<noteq> results ?s ! j \<longrightarrow> i = j"
    using fr d unfolding lane_frame_def by blast
  have l0: "(0::nat) < length (results ?s)" and l1: "(1::nat) < length (results ?s)"
    by (simp_all add: res)
  have zero: "results ?s' ! 0 = results ?s ! 0"
  proof (rule ccontr)
    assume "results ?s' ! 0 \<noteq> results ?s ! 0"
    with changed have "(0::nat) = 1" using q[rule_format, OF l0 l1] by blast
    then show False by simp
  qed
  show ?thesis using d none same one zero by (simp add: res)
qed



section \<open>Read boundaries and the two decoders\<close>

lemma split_nn_nonempty: "split_nn s \<noteq> []"
  by (induction s rule: split_nn.induct) (auto split: list.splits)

lemma split_nn_single: "split_nn s = [p] \<Longrightarrow> p = s"
  by (induction s arbitrary: p rule: split_nn.induct)
     (auto split: list.splits if_splits simp: split_nn_nonempty)

lemma split_nn_append:
  "split_nn (s @ t) = butlast (split_nn s) @ split_nn (last (split_nn s) @ t)"
proof (induction s rule: split_nn.induct)
  case 1
  show ?case by simp
next
  case (2 c)
  show ?case by simp
next
  case (3 c d cs)
  show ?case
  proof (cases "c = 10 \<and> d = 10")
    case True
    with 3 show ?thesis by (simp add: split_nn_nonempty)
  next
    case False
    obtain p ps where sp: "split_nn (d # cs) = p # ps"
      using split_nn_nonempty[of "d # cs"] by (cases "split_nn (d # cs)") auto
    have ih: "split_nn (d # cs @ t) = butlast (p # ps) @ split_nn (last (p # ps) @ t)"
      using 3(2)[OF False] sp by simp
    show ?thesis
    proof (cases ps)
      case Nil
      with sp have pe: "p = d # cs" using split_nn_single by blast
      have "split_nn (c # d # cs) = [c # d # cs]" using False sp Nil pe by simp
      then show ?thesis by (simp del: split_nn.simps)
    next
      case (Cons q qs)
      have l: "split_nn (c # d # cs) = (c # p) # q # qs" using False sp Cons by simp
      have r: "split_nn ((c # d # cs) @ t) = (c # p) # butlast (q # qs) @ split_nn (last (q # qs) @ t)"
        using False ih Cons by simp
      show ?thesis unfolding l r by simp
    qed
  qed
qed

lemma split_nn_last: "split_nn (last (split_nn s)) = [last (split_nn s)]"
proof -
  have "butlast (split_nn s) @ [last (split_nn s)] = butlast (split_nn s) @ split_nn (last (split_nn s))"
    using split_nn_append[of s "[]"] split_nn_nonempty[of s] by simp
  then show ?thesis by simp
qed

lemma decode_append:
  "decode step d (a @ b) =
     (case decode step d a of (d1, o1) \<Rightarrow> case decode step d1 b of (d2, o2) \<Rightarrow> (d2, o1 @ o2))"
  by (induction a arbitrary: d) (auto split: prod.splits)

lemma sse_parts_append:
  "sse_parts parse (xs @ ys) =
     (case sse_parts parse xs of (a, fin) \<Rightarrow>
        if fin then (a, True)
        else (case sse_parts parse ys of (b, fin2) \<Rightarrow> (a @ b, fin2)))"
  by (induction xs) (auto split: prod.splits option.splits simp: Let_def)

lemma sse_loop_concat:
  "split_nn buf = [buf] \<Longrightarrow> sse_loop w d buf vs fl = sse_loop w d buf [concat vs] fl"
proof (induction vs arbitrary: d buf)
  case Nil
  then show ?case by simp
next
  case (Cons v vs)
  obtain d1 t1 where d1: "decode (decoder_step w) d v = (d1, t1)" by force
  obtain d2 t2 where d2: "decode (decoder_step w) d1 (concat vs) = (d2, t2)" by force
  have dd: "decode (decoder_step w) d (v @ concat vs) = (d2, t1 @ t2)"
    by (simp add: decode_append d1 d2)
  let ?B = "buf @ t1"
  let ?r = "last (split_nn ?B)"
  have ih: "sse_loop w d1 ?r vs fl = sse_loop w d1 ?r [concat vs] fl"
    by (rule Cons.IH) (rule split_nn_last)
  have sp: "split_nn (?B @ t2) = butlast (split_nn ?B) @ split_nn (?r @ t2)"
    by (rule split_nn_append)
  have bl: "butlast (split_nn (?B @ t2)) = butlast (split_nn ?B) @ butlast (split_nn (?r @ t2))"
    unfolding sp by (simp add: butlast_append split_nn_nonempty)
  have la: "last (split_nn (?B @ t2)) = last (split_nn (?r @ t2))"
    unfolding sp by (simp add: split_nn_nonempty)
  obtain y1 f1 where p1: "sse_parts (JSON_parse w) (butlast (split_nn ?B)) = (y1, f1)" by force
  obtain y2 f2 where p2: "sse_parts (JSON_parse w) (butlast (split_nn (?r @ t2))) = (y2, f2)"
    by force
  have whole: "sse_parts (JSON_parse w) (butlast (split_nn (?B @ t2)))
                 = (if f1 then (y1, True) else (y1 @ y2, f2))"
    unfolding bl by (simp add: sse_parts_append p1 p2)
  have rest: "sse_loop w d1 ?r [concat vs] fl = (if f2 then (y2, None) else (y2, fl))"
    by (simp add: d2 p2 Let_def)
  have lhs: "sse_loop w d buf (v # vs) fl
               = (if f1 then (y1, None) else if f2 then (y1 @ y2, None) else (y1 @ y2, fl))"
  proof -
    have "sse_loop w d buf (v # vs) fl
            = (if f1 then (y1, None)
               else (case sse_loop w d1 ?r vs fl of (ys', t) \<Rightarrow> (y1 @ ys', t)))"
      by (simp add: d1 p1 Let_def)
    then show ?thesis by (simp add: ih rest del: sse_loop.simps)
  qed
  have rhs: "sse_loop w d buf [v @ concat vs] fl
               = (if f1 then (y1, None) else if f2 then (y1 @ y2, None) else (y1 @ y2, fl))"
    using whole by (simp add: dd Let_def)
  show ?case using lhs rhs by simp
qed

text \<open>
  The buffered decoder does not depend on how the bytes are cut into reads: any sequence
  of reads yields the objects, and ends the way, that the single read of their
  concatenation does.
\<close>

lemma streamSSE_chunking:
  "streamSSE w (r\<lparr>body := Some \<lparr>chunks = vs, failure = fl\<rparr>\<rparr>)
   = streamSSE w (r\<lparr>body := Some \<lparr>chunks = [concat vs], failure = fl\<rparr>\<rparr>)"
  unfolding streamSSE_def using sse_loop_concat[of "[]" w "decoder_init w" vs fl] by simp

text \<open>
  C1.  The stream decoders must yield the same objects however the stream is cut into
  reads.  The unbuffered streamOpenAIResponse does not: the event \<^verbatim>\<open>data: {}\<close> followed by
  a blank line is yielded when it arrives in one read, and lost when the read boundary
  falls inside \<^verbatim>\<open>data: \<close>; the buffered streamSSE yields it on the same two reads.
\<close>

theorem streamOpenAIResponse_split_read:
  "streamOpenAIResponse demo_world (streaming [js ''data: {}\<newline>\<newline>'']) = ([JObj []], None)
 \<and> streamOpenAIResponse demo_world (streaming [js ''da'', js ''ta: {}\<newline>\<newline>'']) = ([], None)
 \<and> streamSSE demo_world (streaming [js ''da'', js ''ta: {}\<newline>\<newline>'']) = ([JObj []], None)"
  by (simp add: streamOpenAIResponse_def streamSSE_def streaming_def demo_world_def
        demo_parse_def js_def trim_def isWhiteSpace_def)


section \<open>Malformed payloads\<close>

lemma split_nn_segment: "10 \<notin> set x \<Longrightarrow> split_nn (x @ 10 # 10 # rest) = x # split_nn rest"
proof (induction x)
  case Nil
  show ?case by simp
next
  case (Cons c x)
  then have c: "c \<noteq> 10" and ih: "split_nn (x @ 10 # 10 # rest) = x # split_nn rest" by auto
  obtain y ys where e: "x @ 10 # 10 # rest = y # ys" by (cases x) auto
  have "split_nn (c # y # ys) = (c # x) # split_nn rest"
    using c ih unfolding e by simp
  then show ?case by (simp add: e)
qed

lemma js_data_no_nl: "10 \<notin> set (js ''data: '')"
  by (simp add: js_def)

lemma split_nn_dataSegment:
  "10 \<notin> set p \<Longrightarrow> split_nn (dataSegment p @ rest) = (js ''data: '' @ p) # split_nn rest"
  using split_nn_segment[of "js ''data: '' @ p" rest] js_data_no_nl
  by (simp add: dataSegment_def)

lemma drop6_data: "drop 6 (js ''data: '' @ p) = p"
  by (simp add: js_def)

lemma sse_parts_data:
  "sse_parts parse ((js ''data: '' @ p) # parts) =
     (if trim p = js ''[DONE]'' then ([], True)
      else (case parse (trim p) of
              None \<Rightarrow> sse_parts parse parts
            | Some v \<Rightarrow> (case sse_parts parse parts of (ys, fin) \<Rightarrow> (v # ys, fin))))"
proof -
  have "prefix (js ''data: '') (js ''data: '' @ p)" by simp
  then show ?thesis
    unfolding sse_parts.simps drop6_data Let_def by (simp only: if_True)
qed

lemma openai_lines_data:
  "openai_lines parse ((js ''data: '' @ p) # parts) =
     (if trim p = js ''[DONE]'' then ([], True)
      else (case parse p of
              None \<Rightarrow> openai_lines parse parts
            | Some v \<Rightarrow> (case openai_lines parse parts of (ys, fin) \<Rightarrow> (v # ys, fin))))"
proof -
  have "prefix (js ''data: '') (js ''data: '' @ p)" by simp
  then show ?thesis
    unfolding openai_lines.simps drop6_data Let_def by (simp only: if_True)
qed

lemma openai_lines_empty_line: "openai_lines parse [[]] = ([], False)"
  by (simp add: js_def)

lemma sse_parts_skip:
  assumes "prefix (js ''data: '') part" "trim (drop 6 part) \<noteq> js ''[DONE]''"
    "parse (trim (drop 6 part)) = None"
  shows "sse_parts parse (before @ part # after) = sse_parts parse (before @ after)"
  using assms by (induction before) (auto simp: Let_def split: prod.splits option.splits)

lemma openai_lines_skip:
  assumes "prefix (js ''data: '') part" "trim (drop 6 part) \<noteq> js ''[DONE]''"
    "parse (drop 6 part) = None"
  shows "openai_lines parse (before @ part # after) = openai_lines parse (before @ after)"
  using assms by (induction before) (auto simp: Let_def split: prod.splits option.splits)

lemma sse_loop_single_read:
  "sse_loop w d [] [v] None
     = (fst (sse_parts (JSON_parse w) (butlast (split_nn (snd (decode (decoder_step w) d v))))), None)"
  by (auto simp: Let_def split: prod.splits)

lemma streamSSE_whole:
  "streamSSE w (streaming vs)
     = (fst (sse_parts (JSON_parse w) (butlast (split_nn (decoded w vs)))), None)"
proof -
  have "streamSSE w (streaming vs) = sse_loop w (decoder_init w) [] vs None"
    by (simp add: streamSSE_def streaming_def)
  also have "\<dots> = sse_loop w (decoder_init w) [] [concat vs] None"
    by (rule sse_loop_concat) simp
  finally show ?thesis by (simp only: sse_loop_single_read decoded_def)
qed

lemma streamOpenAIResponse_single_read:
  "streamOpenAIResponse w (streaming [v])
     = (fst (openai_lines (JSON_parse w) (split_nn (decoded w [v]))), None)"
  by (auto simp: streamOpenAIResponse_def streaming_def decoded_def split: prod.splits)

lemma three_segments:
  assumes "10 \<notin> set p1" "10 \<notin> set p2" "10 \<notin> set p3"
  shows "split_nn (dataSegment p1 @ dataSegment p2 @ dataSegment p3)
           = [js ''data: '' @ p1, js ''data: '' @ p2, js ''data: '' @ p3, []]"
  using assms split_nn_dataSegment[of p3 "[]"]
  by (simp add: split_nn_dataSegment)

text \<open>
  The unbuffered decoder goes through the lines of all the reads in order until the
  terminator; lines without the data prefix, the empty ones between segments among them,
  are passed over.
\<close>

lemma openai_lines_append:
  "openai_lines parse (xs @ ys) =
     (case openai_lines parse xs of (a, fin) \<Rightarrow>
        if fin then (a, True)
        else (case openai_lines parse ys of (b, fin2) \<Rightarrow> (a @ b, fin2)))"
  by (induction xs) (auto split: prod.splits option.splits simp: Let_def)

lemma openai_loop_lines:
  "openai_loop w d vs fl =
     (case openai_lines (JSON_parse w) (concat (map split_nn (read_texts (decoder_step w) d vs))) of
        (ys, fin) \<Rightarrow> (ys, if fin then None else fl))"
proof (induction vs arbitrary: d)
  case Nil
  show ?case by simp
next
  case (Cons v vs)
  obtain d1 t1 where d1: "decode (decoder_step w) d v = (d1, t1)" by force
  obtain y1 f1 where p1: "openai_lines (JSON_parse w) (split_nn t1) = (y1, f1)" by force
  obtain y2 f2 where p2: "openai_lines (JSON_parse w)
      (concat (map split_nn (read_texts (decoder_step w) d1 vs))) = (y2, f2)" by force
  have ih: "openai_loop w d1 vs fl = (y2, if f2 then None else fl)"
    by (simp add: Cons.IH p2)
  have l: "openai_loop w d (v # vs) fl
             = (if f1 then (y1, None) else (y1 @ y2, if f2 then None else fl))"
    by (simp add: d1 p1 ih)
  have r: "openai_lines (JSON_parse w) (concat (map split_nn (read_texts (decoder_step w) d (v # vs))))
             = (if f1 then (y1, True) else (y1 @ y2, f2))"
    by (simp add: d1 openai_lines_append p1 p2)
  show ?case unfolding l r by simp
qed

lemma streamOpenAIResponse_lines:
  "streamOpenAIResponse w (streaming vs)
     = (fst (openai_lines (JSON_parse w) (read_lines w vs)), None)"
  by (simp add: streamOpenAIResponse_def streaming_def openai_loop_lines read_lines_def
        split: prod.splits)

lemma openai_lines_filter:
  "openai_lines parse (filter (prefix (js ''data: '')) ls) = openai_lines parse ls"
  by (induction ls) (simp_all add: Let_def split: option.splits)

lemma split_nn_segments:
  "\<forall>p\<in>set g. 10 \<notin> set p \<Longrightarrow>
   split_nn (concat (map dataSegment g)) = map (\<lambda>p. js ''data: '' @ p) g @ [[]]"
  by (induction g) (simp_all add: split_nn_dataSegment)

lemma js_data_nonempty: "js ''data: '' \<noteq> []"
  by (simp add: js_def)

lemma filter_segment_lines:
  "\<forall>g\<in>set groups. \<forall>p\<in>set g. 10 \<notin> set p \<Longrightarrow>
   filter (prefix (js ''data: ''))
     (concat (map split_nn (map (\<lambda>g. concat (map dataSegment g)) groups)))
     = map (\<lambda>p. js ''data: '' @ p) (concat groups)"
proof (induction groups)
  case Nil
  show ?case by simp
next
  case (Cons g groups)
  then have g: "\<forall>p\<in>set g. 10 \<notin> set p" and rest: "\<forall>g\<in>set groups. \<forall>p\<in>set g. 10 \<notin> set p"
    by simp_all
  have f: "filter (prefix (js ''data: '')) (map (\<lambda>p. js ''data: '' @ p) g) = map (\<lambda>p. js ''data: '' @ p) g"
    by (induction g) simp_all
  show ?case
    using Cons.IH[OF rest] by (simp add: split_nn_segments[OF g] f js_data_nonempty)
qed

text \<open>
  C4.  A data segment whose payload is not the terminator and fails to parse is skipped
  and the sequence goes on: in the loop over the segments of either decoder the outcome
  is the one without that segment, whatever comes before and after it; and so is the
  outcome of the whole stream, over all its reads: streamSSE yields what it yields for a
  stream whose complete segments are the same without the malformed one, and
  streamOpenAIResponse, which goes through the lines of each read in turn, yields what it
  yields for reads whose lines are the same without the malformed one.  In particular,
  when the stream is a well-formed payload, a malformed one and another well-formed one,
  each in its own segment, both well-formed objects are yielded: by streamSSE for any
  cutting of the stream into reads, by streamOpenAIResponse when the stream is one read
  and for every cutting of the stream into reads at segment boundaries.
\<close>

theorem malformed_payload_skipped:
  "(prefix (js ''data: '') part \<and> trim (drop 6 part) \<noteq> js ''[DONE]''
      \<and> JSON_parse w (trim (drop 6 part)) = None \<longrightarrow>
      sse_parts (JSON_parse w) (before @ part # after)
        = sse_parts (JSON_parse w) (before @ after)
    \<and> (butlast (split_nn (decoded w rs)) = before @ part # after
         \<and> butlast (split_nn (decoded w rs')) = before @ after \<longrightarrow>
         streamSSE w (streaming rs) = streamSSE w (streaming rs')))
 \<and> (prefix (js ''data: '') line \<and> trim (drop 6 line) \<noteq> js ''[DONE]''
      \<and> JSON_parse w (drop 6 line) = None \<longrightarrow>
      openai_lines (JSON_parse w) (earlier @ line # later)
        = openai_lines (JSON_parse w) (earlier @ later)
    \<and> (read_lines w qs = earlier @ line # later \<and> read_lines w qs' = earlier @ later \<longrightarrow>
         streamOpenAIResponse w (streaming qs) = streamOpenAIResponse w (streaming qs')))
 \<and> (10 \<notin> set p1 \<union> set bad \<union> set p3
      \<and> trim p1 = p1 \<and> trim bad = bad \<and> trim p3 = p3
      \<and> p1 \<noteq> js ''[DONE]'' \<and> bad \<noteq> js ''[DONE]'' \<and> p3 \<noteq> js ''[DONE]''
      \<and> JSON_parse w p1 = Some v1 \<and> JSON_parse w bad = None \<and> JSON_parse w p3 = Some v3 \<longrightarrow>
      (decoded w vs = dataSegment p1 @ dataSegment bad @ dataSegment p3
         \<longrightarrow> streamSSE w (streaming vs) = ([v1, v3], None))
    \<and> (decoded w [v] = dataSegment p1 @ dataSegment bad @ dataSegment p3
         \<longrightarrow> streamOpenAIResponse w (streaming [v]) = ([v1, v3], None))
    \<and> (read_texts (decoder_step w) (decoder_init w) us
           = map (\<lambda>g. concat (map dataSegment g)) groups
         \<and> concat groups = [p1, bad, p3]
         \<longrightarrow> streamOpenAIResponse w (streaming us) = ([v1, v3], None)))"
proof (intro conjI impI)
  assume "prefix (js ''data: '') part \<and> trim (drop 6 part) \<noteq> js ''[DONE]''
      \<and> JSON_parse w (trim (drop 6 part)) = None"
  then show sk: "sse_parts (JSON_parse w) (before @ part # after)
        = sse_parts (JSON_parse w) (before @ after)"
    by (intro sse_parts_skip) blast+
  assume "butlast (split_nn (decoded w rs)) = before @ part # after
         \<and> butlast (split_nn (decoded w rs')) = before @ after"
  then show "streamSSE w (streaming rs) = streamSSE w (streaming rs')"
    by (simp add: streamSSE_whole sk del: sse_parts.simps)
next
  assume "prefix (js ''data: '') line \<and> trim (drop 6 line) \<noteq> js ''[DONE]''
      \<and> JSON_parse w (drop 6 line) = None"
  then show sk: "openai_lines (JSON_parse w) (earlier @ line # later)
        = openai_lines (JSON_parse w) (earlier @ later)"
    by (intro openai_lines_skip) blast+
  assume "read_lines w qs = earlier @ line # later \<and> read_lines w qs' = earlier @ later"
  then show "streamOpenAIResponse w (streaming qs) = streamOpenAIResponse w (streaming qs')"
    by (simp add: streamOpenAIResponse_lines sk del: openai_lines.simps)
next
  assume h: "10 \<notin> set p1 \<union> set bad \<union> set p3
      \<and> trim p1 = p1 \<and> trim bad = bad \<and> trim p3 = p3
      \<and> p1 \<noteq> js ''[DONE]'' \<and> bad \<noteq> js ''[DONE]'' \<and> p3 \<noteq> js ''[DONE]''
      \<and> JSON_parse w p1 = Some v1 \<and> JSON_parse w bad = None \<and> JSON_parse w p3 = Some v3"
  then have sp: "split_nn (dataSegment p1 @ dataSegment bad @ dataSegment p3)
           = [js ''data: '' @ p1, js ''data: '' @ bad, js ''data: '' @ p3, []]"
    by (intro three_segments) auto
  {
    assume "decoded w vs = dataSegment p1 @ dataSegment bad @ dataSegment p3"
    then show "streamSSE w (streaming vs) = ([v1, v3], None)"
      using h by (simp add: streamSSE_whole sp sse_parts_data del: sse_parts.simps(2))
  }
  {
    assume "decoded w [v] = dataSegment p1 @ dataSegment bad @ dataSegment p3"
    then show "streamOpenAIResponse w (streaming [v]) = ([v1, v3], None)"
      using h by (simp add: streamOpenAIResponse_single_read sp openai_lines_data
            openai_lines_empty_line del: openai_lines.simps(2))
  }
  {
    assume a: "read_texts (decoder_step w) (decoder_init w) us
           = map (\<lambda>g. concat (map dataSegment g)) groups
         \<and> concat groups = [p1, bad, p3]"
    have nl: "\<forall>g\<in>set groups. \<forall>p\<in>set g. 10 \<notin> set p"
    proof (intro ballI)
      fix g p assume "g \<in> set groups" "p \<in> set g"
      then have "p \<in> set (concat groups)" by auto
      with a h show "10 \<notin> set p" by auto
    qed
    have "openai_lines (JSON_parse w) (read_lines w us)
            = openai_lines (JSON_parse w) (filter (prefix (js ''data: '')) (read_lines w us))"
      by (simp only: openai_lines_filter)
    also have "filter (prefix (js ''data: '')) (read_lines w us)
                 = map (\<lambda>p. js ''data: '' @ p) (concat groups)"
      unfolding read_lines_def using a filter_segment_lines[OF nl] by simp
    also have "\<dots> = [js ''data: '' @ p1, js ''data: '' @ bad, js ''data: '' @ p3]"
      using a by simp
    finally have "openai_lines (JSON_parse w) (read_lines w us) = ([v1, v3], False)"
      using h by (simp add: openai_lines_data del: openai_lines.simps(2))
    then show "streamOpenAIResponse w (streaming us) = ([v1, v3], None)"
      by (simp add: streamOpenAIResponse_lines)
  }
qed

lemma demo_decoded: "decoded demo_world vs = concat vs"
proof -
  have "decode (\<lambda>d b. (d, [b])) () bs = ((), bs)" for bs :: "nat list"
    by (induction bs) auto
  then show ?thesis by (simp add: decoded_def demo_world_def)
qed

lemma demo_read_texts:
  "read_texts (decoder_step demo_world) (decoder_init demo_world) vs = vs"
proof -
  have d: "decode (\<lambda>d b. ((), [b])) () bs = ((), bs)" for bs :: "nat list"
    by (induction bs) auto
  have "read_texts (\<lambda>d b. ((), [b])) () vs = vs"
    by (induction vs) (simp_all add: d)
  then show ?thesis by (simp add: demo_world_def)
qed

theorem malformed_payload_skipped_witness:
  \<open>prefix (js ''data: '') (js ''data:  {oops '')
 \<and> trim (drop 6 (js ''data:  {oops '')) \<noteq> js ''[DONE]''
 \<and> JSON_parse demo_world (trim (drop 6 (js ''data:  {oops ''))) = None
 \<and> JSON_parse demo_world (drop 6 (js ''data:  {oops '')) = None
 \<and> sse_parts (JSON_parse demo_world) ([js ''data: {}''] @ js ''data:  {oops '' # [js ''data: {}''])
       = sse_parts (JSON_parse demo_world) ([js ''data: {}''] @ [js ''data: {}''])
 \<and> streamSSE demo_world
       (streaming [js ''data: {}\<newline>\<newline>data:  {o'', js ''ops \<newline>\<newline>data: {}\<newline>\<newline>''])
       = streamSSE demo_world (streaming [js ''data: {}\<newline>\<newline>data: {}\<newline>\<newline>''])
 \<and> openai_lines (JSON_parse demo_world)
       ([js ''data: {}''] @ js ''data:  {oops '' # [[], js ''data: {}'', []])
       = openai_lines (JSON_parse demo_world) ([js ''data: {}''] @ [[], js ''data: {}'', []])
 \<and> streamOpenAIResponse demo_world
       (streaming [js ''data: {}\<newline>\<newline>data:  {oops \<newline>\<newline>'', js ''data: {}\<newline>\<newline>''])
       = streamOpenAIResponse demo_world
           (streaming [js ''data: {}\<newline>\<newline>'', js ''data: {}\<newline>\<newline>''])
 \<and> JSON_parse demo_world (js ''{oops'') = None
 \<and> JSON_parse demo_world (js ''{}'') = Some (JObj [])
 \<and> streamSSE demo_world
       (streaming [js ''data: {}\<newline>\<newline>da'', js ''ta: {oops\<newline>\<newline>data: {}\<newline>\<newline>''])
       = ([JObj [], JObj []], None)
 \<and> streamOpenAIResponse demo_world
       (streaming [js ''data: {}\<newline>\<newline>data: {oops\<newline>\<newline>data: {}\<newline>\<newline>''])
       = ([JObj [], JObj []], None)
 \<and> streamOpenAIResponse demo_world
       (streaming [js ''data: {}\<newline>\<newline>data: {oops\<newline>\<newline>'', js ''data: {}\<newline>\<newline>''])
       = ([JObj [], JObj []], None)\<close>
proof -
  have q1: "prefix (js ''data: '') (js ''data:  {oops '')" by (simp add: js_def)
  have q2: "trim (drop 6 (js ''data:  {oops '')) \<noteq> js ''[DONE]''"
    by (simp add: trim_def isWhiteSpace_def js_def)
  have q3: "JSON_parse demo_world (trim (drop 6 (js ''data:  {oops ''))) = None"
    by (simp add: demo_world_def demo_parse_def trim_def isWhiteSpace_def js_def)
  have q4: "JSON_parse demo_world (drop 6 (js ''data:  {oops '')) = None"
    by (simp add: demo_world_def demo_parse_def js_def)
  have r1: "butlast (split_nn (decoded demo_world
              [js ''data: {}\<newline>\<newline>data:  {o'', js ''ops \<newline>\<newline>data: {}\<newline>\<newline>'']))
              = [js ''data: {}''] @ js ''data:  {oops '' # [js ''data: {}'']"
    by (simp add: demo_decoded js_def)
  have r2: "butlast (split_nn (decoded demo_world [js ''data: {}\<newline>\<newline>data: {}\<newline>\<newline>'']))
              = [js ''data: {}''] @ [js ''data: {}'']"
    by (simp add: demo_decoded js_def)
  have r3: "read_lines demo_world
              [js ''data: {}\<newline>\<newline>data:  {oops \<newline>\<newline>'', js ''data: {}\<newline>\<newline>'']
              = [js ''data: {}''] @ js ''data:  {oops '' # [[], js ''data: {}'', []]"
    unfolding read_lines_def demo_read_texts by (simp add: js_def)
  have r4: "read_lines demo_world [js ''data: {}\<newline>\<newline>'', js ''data: {}\<newline>\<newline>'']
              = [js ''data: {}''] @ [[], js ''data: {}'', []]"
    unfolding read_lines_def demo_read_texts by (simp add: js_def)
  have a: "JSON_parse demo_world (js ''{oops'') = None"
    by (simp add: demo_world_def demo_parse_def js_def)
  have b: "js ''{oops'' \<noteq> js ''[DONE]''" by (simp add: js_def)
  have c: "trim (js ''{oops'') = js ''{oops''" by (simp add: trim_def isWhiteSpace_def js_def)
  have g: "JSON_parse demo_world (js ''{}'') = Some (JObj [])"
    by (simp add: demo_world_def demo_parse_def js_def)
  have t: "trim (js ''{}'') = js ''{}''" by (simp add: trim_def isWhiteSpace_def js_def)
  have n: "10 \<notin> set (js ''{}'') \<union> set (js ''{oops'') \<union> set (js ''{}'')" by (simp add: js_def)
  have nd: "js ''{}'' \<noteq> js ''[DONE]''" by (simp add: js_def)
  have d1: "decoded demo_world [js ''data: {}\<newline>\<newline>da'', js ''ta: {oops\<newline>\<newline>data: {}\<newline>\<newline>'']
              = dataSegment (js ''{}'') @ dataSegment (js ''{oops'') @ dataSegment (js ''{}'')"
    by (simp add: demo_decoded dataSegment_def js_def)
  have d2: "decoded demo_world [js ''data: {}\<newline>\<newline>data: {oops\<newline>\<newline>data: {}\<newline>\<newline>'']
              = dataSegment (js ''{}'') @ dataSegment (js ''{oops'') @ dataSegment (js ''{}'')"
    by (simp add: demo_decoded dataSegment_def js_def)
  have d3: "read_texts (decoder_step demo_world) (decoder_init demo_world)
              [js ''data: {}\<newline>\<newline>data: {oops\<newline>\<newline>'', js ''data: {}\<newline>\<newline>'']
              = map (\<lambda>g. concat (map dataSegment g)) [[js ''{}'', js ''{oops''], [js ''{}'']]"
    unfolding demo_read_texts by (simp add: dataSegment_def js_def)
  have d4: "concat [[js ''{}'', js ''{oops''], [js ''{}'']] = [js ''{}'', js ''{oops'', js ''{}'']"
    by simp
  note th = malformed_payload_skipped[where part = "js ''data:  {oops ''" and w = demo_world
      and before = "[js ''data: {}'']" and after = "[js ''data: {}'']"
      and rs = "[js ''data: {}\<newline>\<newline>data:  {o'', js ''ops \<newline>\<newline>data: {}\<newline>\<newline>'']"
      and rs' = "[js ''data: {}\<newline>\<newline>data: {}\<newline>\<newline>'']"
      and line = "js ''data:  {oops ''" and earlier = "[js ''data: {}'']"
      and later = "[[], js ''data: {}'', []]"
      and qs = "[js ''data: {}\<newline>\<newline>data:  {oops \<newline>\<newline>'', js ''data: {}\<newline>\<newline>'']"
      and qs' = "[js ''data: {}\<newline>\<newline>'', js ''data: {}\<newline>\<newline>'']"
      and ?p1.0 = "js ''{}''" and bad = "js ''{oops''" and ?p3.0 = "js ''{}''"
      and ?v1.0 = "JObj []" and ?v3.0 = "JObj []"
      and vs = "[js ''data: {}\<newline>\<newline>da'', js ''ta: {oops\<newline>\<newline>data: {}\<newline>\<newline>'']"
      and v = "js ''data: {}\<newline>\<newline>data: {oops\<newline>\<newline>data: {}\<newline>\<newline>''"
      and us = "[js ''data: {}\<newline>\<newline>data: {oops\<newline>\<newline>'', js ''data: {}\<newline>\<newline>'']"
      and groups = "[[js ''{}'', js ''{oops''], [js ''{}'']]"]
  show ?thesis using th q1 q2 q3 q4 r1 r2 r3 r4 a b c g t n nd d1 d2 d3 d4 by blast
qed


section \<open>What a generate call yields\<close>

lemma generate_loop_chunks:
  "generate_loop w c xs st = (evs, st', t) \<Longrightarrow> \<forall>e\<in>set evs. \<not> isMetrics e"
proof (induction xs arbitrary: st evs st' t)
  case Nil
  then show ?case by simp
next
  case (Cons j xs)
  show ?case
  proof (cases "c j")
    case (Inl e)
    with Cons.prems show ?thesis by simp
  next
    case (Inr content)
    show ?thesis
    proof (cases "truthy content")
      case True
      with Cons.prems Inr obtain st2 evs2 where
        r: "generate_loop w c xs st2 = (evs2, st', t)" and e: "evs = Chunk (to_text w content) # evs2"
        by (auto simp: Let_def split: prod.splits)
      from Cons.IH[OF r] e show ?thesis by (simp add: isMetrics_def)
    next
      case False
      with Cons.prems Inr have "generate_loop w c xs st = (evs, st', t)" by simp
      from Cons.IH[OF this] show ?thesis .
    qed
  qed
qed





text \<open>Two runs: one that completes, and one whose second read is rejected.\<close>

lemma demo_generate_cerebras:
  "generate_cerebras demo_world (js ''Hello'') (js ''llama3.1-8b'') (js ''sk-1'') None None
     = ([Chunk (js ''Hi''), Chunk (js ''!''),
         Metrics \<lparr> startTime = 1000, firstTokenTime = Some 1010, finishTime = 1020,
                   tokenCount = 3, inputTokens = Some 2, outputTokens = Some 1 \<rparr>], None)"
  by (simp add: generate_cerebras_def generate_from_def streamSSE_def streaming_def
        demo_world_def demo_fetch_def demo_parse_def js_def trim_def isWhiteSpace_def
        cerebras_content_def opt_member_def opt_index0_def to_text_def unset_def Let_def)




section \<open>The order of the timestamps\<close>

lemma generate_loop_first_token:
  assumes mono: "\<forall>i j. i \<le> j \<longrightarrow> Date_now w i \<le> Date_now w j"
  shows "generate_loop w c xs st = (evs, st', t) \<Longrightarrow>
         (\<forall>f. g_firstTokenTime st = Some f \<longrightarrow> Date_now w 0 \<le> f \<and> f \<le> Date_now w (g_clock st)) \<Longrightarrow>
         (\<forall>f. g_firstTokenTime st' = Some f \<longrightarrow> Date_now w 0 \<le> f \<and> f \<le> Date_now w (g_clock st'))"
proof (induction xs arbitrary: st evs st' t)
  case Nil
  then show ?case by simp
next
  case (Cons j xs)
  show ?case
  proof (cases "c j")
    case (Inl e)
    with Cons.prems show ?thesis by simp
  next
    case (Inr content)
    show ?thesis
    proof (cases "truthy content")
      case False
      with Cons.prems Inr have "generate_loop w c xs st = (evs, st', t)" by simp
      from Cons.IH[OF this Cons.prems(2)] show ?thesis .
    next
      case True
      define st1 where "st1 = (if unset (g_firstTokenTime st)
                        then st\<lparr>g_firstTokenTime := Some (Date_now w (g_clock st)),
                                g_clock := Suc (g_clock st)\<rparr>
                        else st)"
      define st2 where "st2 = st1\<lparr>g_tokenCount := g_tokenCount st1 + 1,
                           g_generatedText := g_generatedText st1 @ to_text w content\<rparr>"
      from Cons.prems(1) Inr True obtain evs2 where
        r: "generate_loop w c xs st2 = (evs2, st', t)"
        by (auto simp: Let_def st1_def st2_def split: prod.splits)
      have m1: "Date_now w 0 \<le> Date_now w (g_clock st)" using mono by simp
      have m2: "Date_now w (g_clock st) \<le> Date_now w (Suc (g_clock st))" using mono by simp
      have "\<forall>f. g_firstTokenTime st1 = Some f \<longrightarrow> Date_now w 0 \<le> f \<and> f \<le> Date_now w (g_clock st1)"
        using Cons.prems(2) m1 m2 by (auto simp: st1_def)
      then have "\<forall>f. g_firstTokenTime st2 = Some f \<longrightarrow> Date_now w 0 \<le> f \<and> f \<le> Date_now w (g_clock st2)"
        by (simp add: st2_def)
      from Cons.IH[OF r this] show ?thesis .
    qed
  qed
qed

lemma generate_from_ordered:
  assumes mono: "\<forall>i j. i \<le> j \<longrightarrow> Date_now w i \<le> Date_now w j"
    and mem: "Metrics m \<in> set (fst (generate_from w pre c dec p req))"
  shows "metrics_ordered m"
proof (cases "fetch w req")
  case (Inl e)
  with mem show ?thesis by (simp add: generate_from_def)
next
  case (Inr response)
  show ?thesis
  proof (cases "ok response")
    case False
    with Inr mem show ?thesis by (simp add: generate_from_def)
  next
    case True
    obtain decoded' streamEnd where d: "dec w response = (decoded', streamEnd)" by force
    obtain evs st t where g: "generate_loop w c decoded'
        \<lparr>g_firstTokenTime = None, g_tokenCount = 0, g_generatedText = [], g_clock = 1\<rparr> = (evs, st, t)"
      by (metis prod_cases3)
    have ch: "\<forall>e\<in>set evs. \<not> isMetrics e" by (rule generate_loop_chunks[OF g])
    have inv: "\<forall>f. g_firstTokenTime st = Some f \<longrightarrow> Date_now w 0 \<le> f \<and> f \<le> Date_now w (g_clock st)"
      by (rule generate_loop_first_token[OF mono g]) simp
    have nm: "Metrics m \<notin> set evs" using ch by (auto simp: isMetrics_def)
    from mem Inr True d g nm have
      "m = \<lparr>startTime = Date_now w 0, firstTokenTime = g_firstTokenTime st,
            finishTime = Date_now w (g_clock st),
            tokenCount = finalTokenTotal w p (g_generatedText st),
            inputTokens = Some (approxTokensFromText w p),
            outputTokens = Some (approxTokensFromText w (g_generatedText st))\<rparr>"
      by (auto simp: generate_from_def split: option.splits)
    with inv show ?thesis by (auto simp: metrics_ordered_def split: option.splits)
  qed
qed

lemma laneLoop_finish_origin:
  "laneLoop cfg start clk rid evs st = (acts, st', b) \<Longrightarrow>
   FINISH_STREAM r m \<in> set acts \<Longrightarrow> Metrics m \<in> set evs"
proof (induction evs arbitrary: st acts st' b)
  case Nil
  then show ?case by simp
next
  case (Cons e evs)
  obtain st1 stop where lc: "limitCheck cfg start clk st = (st1, stop)" by force
  show ?case
  proof (cases stop)
    case True
    with Cons.prems lc show ?thesis by simp
  next
    case False
    show ?thesis
    proof (cases e)
      case (Chunk content)
      with Cons.prems lc False obtain acts2 where
        r: "laneLoop cfg start clk rid evs (st1\<lparr>l_tokenCount := l_tokenCount st1 + 1\<rparr>) = (acts2, st', b)"
        and a: "acts = RECEIVE_CHUNK rid content # acts2"
        by (auto split: prod.splits)
      from Cons.prems(2) a have "FINISH_STREAM r m \<in> set acts2" by simp
      from Cons.IH[OF r this] show ?thesis by simp
    next
      case (Metrics data)
      with Cons.prems lc False obtain acts2 where
        r: "laneLoop cfg start clk rid evs (st1\<lparr>l_sawMetrics := True\<rparr>) = (acts2, st', b)"
        and a: "acts = FINISH_STREAM rid data # acts2"
        by (auto split: prod.splits)
      show ?thesis
      proof (cases "FINISH_STREAM r m \<in> set acts2")
        case True
        from Cons.IH[OF r this] show ?thesis by simp
      next
        case False
        with Cons.prems(2) a Metrics show ?thesis by simp
      qed
    qed
  qed
qed

lemma laneRun_finish_origin:
  assumes "FINISH_STREAM r m \<in> set (laneRun env s p call)"
  shows "Metrics m \<in> set (events (streamCompletion env call))
       \<or> (\<exists>k n. m = syntheticMetrics (raceStartTime env) (laneClock env p k) n)"
proof -
  obtain acts st b where l: "laneLoop (raceConfig s) (raceStartTime env) (laneClock env p) (resultId p)
      (events (streamCompletion env call)) \<lparr>l_tokenCount = 0, l_sawMetrics = False, l_clock = 0\<rparr>
      = (acts, st, b)" by (metis prod_cases3)
  from assms l have
    "FINISH_STREAM r m \<in> set acts
     \<or> FINISH_STREAM r m \<in> set (laneEnd (raceConfig s) (raceStartTime env) (laneClock env p)
           (resultId p) (thrown (streamCompletion env call)) (st, b))"
    by (auto simp: laneRun_def Let_def)
  then show ?thesis
  proof
    assume "FINISH_STREAM r m \<in> set acts"
    from laneLoop_finish_origin[OF l this] show ?thesis by blast
  next
    assume "FINISH_STREAM r m \<in> set (laneEnd (raceConfig s) (raceStartTime env) (laneClock env p)
           (resultId p) (thrown (streamCompletion env call)) (st, b))"
    then have "m = syntheticMetrics (raceStartTime env) (laneClock env p (l_clock st)) (l_tokenCount st)"
      by (auto simp: laneEnd_def split: option.splits if_splits)
    then show ?thesis by blast
  qed
qed

lemma laneTask_cases:
  "laneTask env s p = [SET_ERROR (resultId p) (js ''API Key not set'')]
 \<or> (\<exists>call. laneTask env s p = laneRun env s p call)"
  by (auto simp: laneTask_def split: option.splits)

lemma laneTask_finish_origin:
  assumes "FINISH_STREAM r m \<in> set (laneTask env s p)"
  shows "(\<exists>call. Metrics m \<in> set (events (streamCompletion env call)))
       \<or> (\<exists>k n. m = syntheticMetrics (raceStartTime env) (laneClock env p k) n)"
  using laneTask_cases[of env s p]
proof
  assume "laneTask env s p = [SET_ERROR (resultId p) (js ''API Key not set'')]"
  with assms show ?thesis by simp
next
  assume "\<exists>call. laneTask env s p = laneRun env s p call"
  then obtain call where "laneTask env s p = laneRun env s p call" by blast
  with assms have "FINISH_STREAM r m \<in> set (laneRun env s p call)" by simp
  from laneRun_finish_origin[OF this] show ?thesis by blast
qed

text \<open>
  C2, as the code has it.  When the clock does not run backwards, the metrics yielded by
  the generate of each adapter have startTime \<open>\<le>\<close> firstTokenTime \<open>\<le>\<close> finishTime whenever the
  first-token time is there.  The metrics a lane records are either the metrics event of
  its stream, unchanged, or the synthetic metrics; the synthetic metrics have startTime
  the race start and firstTokenTime the race start plus 100, and they are ordered exactly
  when the lane was cut off at least 100 ms after the race start.
\<close>

theorem metrics_timestamps:
  assumes mono: "\<forall>i j. i \<le> j \<longrightarrow> Date_now w i \<le> Date_now w j"
  shows "(Metrics m \<in> set (fst (generate_cerebras w p md k sg st)) \<longrightarrow> metrics_ordered m)
       \<and> (Metrics m \<in> set (fst (generate_zhipu w p md k sg st)) \<longrightarrow> metrics_ordered m)
       \<and> (Metrics m \<in> set (fst (generate_moonshot w p md k sg st)) \<longrightarrow> metrics_ordered m)
       \<and> (FINISH_STREAM r m' \<in> set (laneTask env s pr) \<longrightarrow>
            (\<exists>call. Metrics m' \<in> set (events (streamCompletion env call)))
          \<or> (\<exists>i n. m' = syntheticMetrics (raceStartTime env) (laneClock env pr i) n))
       \<and> startTime (syntheticMetrics start fin n) = start
       \<and> firstTokenTime (syntheticMetrics start fin n) = Some (start + 100)
       \<and> finishTime (syntheticMetrics start fin n) = fin
       \<and> (metrics_ordered (syntheticMetrics start fin n) \<longleftrightarrow> start + 100 \<le> fin)"
  using generate_from_ordered[OF mono] laneTask_finish_origin
  by (auto simp: generate_cerebras_def generate_zhipu_def generate_moonshot_def
        syntheticMetrics_def metrics_ordered_def)

lemma demo_clock_mono: "\<forall>i j. i \<le> j \<longrightarrow> Date_now demo_world i \<le> Date_now demo_world j"
  by (simp add: demo_world_def)

lemma demo_lane_drag:
  "laneTask demo_env (demo_state Drag) cerebras_pair
     = [RECEIVE_CHUNK (js ''cerebras-llama3.1-8b'') (js ''Hi''),
        RECEIVE_CHUNK (js ''cerebras-llama3.1-8b'') (js ''!''),
        FINISH_STREAM (js ''cerebras-llama3.1-8b'')
          \<lparr> startTime = 1000, firstTokenTime = Some 1010, finishTime = 1020,
            tokenCount = 3, inputTokens = Some 2, outputTokens = Some 1 \<rparr>]"
  by (simp add: laneTask_def laneRun_def laneEnd_def limitCheck_def limitSet_def
        demo_env_def demo_state_def demo_config_def demo_stream_def cerebras_pair_def
        resultId_def laneCall_def js_def Let_def)

theorem metrics_timestamps_witness:
  "Metrics \<lparr> startTime = 1000, firstTokenTime = Some 1010, finishTime = 1020,
             tokenCount = 3, inputTokens = Some 2, outputTokens = Some 1 \<rparr>
     \<in> set (fst (generate_cerebras demo_world (js ''Hello'') (js ''llama3.1-8b'') (js ''sk-1'') None None))
 \<and> metrics_ordered \<lparr> startTime = 1000, firstTokenTime = Some 1010, finishTime = 1020,
                      tokenCount = 3, inputTokens = Some 2, outputTokens = Some 1 \<rparr>
 \<and> FINISH_STREAM (js ''cerebras-llama3.1-8b'')
      \<lparr> startTime = 1000, firstTokenTime = Some 1010, finishTime = 1020,
        tokenCount = 3, inputTokens = Some 2, outputTokens = Some 1 \<rparr>
     \<in> set (laneTask demo_env (demo_state Drag) cerebras_pair)
 \<and> (1000::int) + 100 \<le> 1100
 \<and> metrics_ordered (syntheticMetrics 1000 1100 1)"
proof -
  let ?m = "\<lparr> startTime = 1000, firstTokenTime = Some 1010, finishTime = 1020,
             tokenCount = 3, inputTokens = Some 2, outputTokens = Some (1::int) \<rparr>"
  note th = metrics_timestamps[OF demo_clock_mono, of ?m "js ''Hello''" "js ''llama3.1-8b''"
      "js ''sk-1''" None None "js ''cerebras-llama3.1-8b''" ?m demo_env "demo_state Drag"
      cerebras_pair 1000 1100 1]
  have mem: "Metrics ?m \<in> set (fst (generate_cerebras demo_world (js ''Hello'') (js ''llama3.1-8b'')
                (js ''sk-1'') None None))"
    by (simp add: demo_generate_cerebras)
  have fin: "FINISH_STREAM (js ''cerebras-llama3.1-8b'') ?m
               \<in> set (laneTask demo_env (demo_state Drag) cerebras_pair)"
    by (simp add: demo_lane_drag)
  have o1: "metrics_ordered ?m" using th mem by blast
  have o2: "metrics_ordered (syntheticMetrics 1000 1100 1)" using th by simp
  show ?thesis using mem fin o1 o2 by simp
qed

text \<open>
  C2 as stated fails for synthetic metrics: with a token limit of one, a lane whose second
  chunk arrives 20 ms after the race start is cut off there, and its metrics have
  firstTokenTime 1100 after finishTime 1020.
\<close>

theorem synthetic_metrics_unordered:
  "laneTask demo_env (demo_state Token_limit) cerebras_pair
     = [RECEIVE_CHUNK (js ''cerebras-llama3.1-8b'') (js ''Hi''),
        FINISH_STREAM (js ''cerebras-llama3.1-8b'')
          \<lparr> startTime = 1000, firstTokenTime = Some 1100, finishTime = 1020,
            tokenCount = 1, inputTokens = None, outputTokens = Some 1 \<rparr>]
 \<and> \<not> metrics_ordered
          \<lparr> startTime = 1000, firstTokenTime = Some 1100, finishTime = 1020,
            tokenCount = 1, inputTokens = None, outputTokens = Some 1 \<rparr>"
  by (simp add: laneTask_def laneRun_def laneEnd_def limitCheck_def limitSet_def syntheticMetrics_def
        demo_env_def demo_state_def demo_config_def demo_stream_def cerebras_pair_def
        resultId_def laneCall_def metrics_ordered_def js_def Let_def)


section \<open>Lanes cut short by a limit\<close>

lemma limitCheck_token:
  assumes "mode cfg = Token_limit" "tokenLimit cfg = Some L" "0 < L"
  shows "limitCheck cfg start clk st = (st, L \<le> l_tokenCount st)"
  using assms by (simp add: limitCheck_def limitSet_def)

lemma laneLoop_token_limit:
  assumes m: "mode cfg = Token_limit" and l: "tokenLimit cfg = Some L" and p: "0 < L"
  shows "l_tokenCount st \<le> L \<Longrightarrow> L - l_tokenCount st < int (length cs) \<Longrightarrow>
     laneLoop cfg start clk rid (map Chunk cs @ rest) st
       = (map (RECEIVE_CHUNK rid) (take (nat (L - l_tokenCount st)) cs), st\<lparr>l_tokenCount := L\<rparr>, True)"
proof (induction cs arbitrary: st)
  case Nil
  then show ?case by simp
next
  case (Cons c cs)
  note lc = limitCheck_token[OF m l p, of start clk st]
  show ?case
  proof (cases "L \<le> l_tokenCount st")
    case True
    with Cons.prems have e: "l_tokenCount st = L" by simp
    have "st\<lparr>l_tokenCount := L\<rparr> = st" using e by simp
    with True lc e show ?thesis by simp
  next
    case False
    let ?st = "st\<lparr>l_tokenCount := l_tokenCount st + 1\<rparr>"
    have a: "l_tokenCount ?st \<le> L" using False by simp
    have b: "L - l_tokenCount ?st < int (length cs)" using Cons.prems(2) by simp
    have ih: "laneLoop cfg start clk rid (map Chunk cs @ rest) ?st
       = (map (RECEIVE_CHUNK rid) (take (nat (L - l_tokenCount ?st)) cs), ?st\<lparr>l_tokenCount := L\<rparr>, True)"
      by (rule Cons.IH[OF a b])
    have n: "nat (L - l_tokenCount st) = Suc (nat (L - l_tokenCount ?st))" using False by simp
    show ?thesis using False lc ih by (simp add: n)
  qed
qed

lemma laneLoop_counter:
  "laneLoop cfg start clk rid evs st = (acts, st', b) \<Longrightarrow>
   l_tokenCount st' = l_tokenCount st + int (length (filter isReceive acts))"
proof (induction evs arbitrary: st acts st' b)
  case Nil
  then show ?case by simp
next
  case (Cons e evs)
  obtain st1 stop where lc: "limitCheck cfg start clk st = (st1, stop)" by force
  have c1: "l_tokenCount st1 = l_tokenCount st"
    using lc by (auto simp: limitCheck_def Let_def split: option.splits if_splits)
  show ?case
  proof (cases stop)
    case True
    with Cons.prems lc c1 show ?thesis by auto
  next
    case False
    show ?thesis
    proof (cases e)
      case (Chunk content)
      with Cons.prems lc False obtain acts2 where
        r: "laneLoop cfg start clk rid evs (st1\<lparr>l_tokenCount := l_tokenCount st1 + 1\<rparr>) = (acts2, st', b)"
        and a: "acts = RECEIVE_CHUNK rid content # acts2"
        by (auto split: prod.splits)
      from Cons.IH[OF r] a c1 show ?thesis by (simp add: isReceive_def)
    next
      case (Metrics data)
      with Cons.prems lc False obtain acts2 where
        r: "laneLoop cfg start clk rid evs (st1\<lparr>l_sawMetrics := True\<rparr>) = (acts2, st', b)"
        and a: "acts = FINISH_STREAM rid data # acts2"
        by (auto split: prod.splits)
      from Cons.IH[OF r] a c1 show ?thesis by (simp add: isReceive_def)
    qed
  qed
qed

lemma limitCheck_stop_mode:
  "limitCheck cfg start clk st = (st1, True) \<Longrightarrow> mode cfg = Token_limit \<or> mode cfg = Time_limit"
  by (auto simp: limitCheck_def Let_def split: option.splits if_splits)

lemma laneLoop_broke_mode:
  "laneLoop cfg start clk rid evs st = (acts, st', True) \<Longrightarrow>
   mode cfg = Token_limit \<or> mode cfg = Time_limit"
proof (induction evs arbitrary: st acts)
  case Nil
  then show ?case by simp
next
  case (Cons e evs)
  obtain st1 stop where lc: "limitCheck cfg start clk st = (st1, stop)" by force
  show ?case
  proof (cases stop)
    case True
    with lc have "limitCheck cfg start clk st = (st1, True)" by simp
    then show ?thesis by (rule limitCheck_stop_mode)
  next
    case False
    with Cons.prems lc obtain st2 acts2 where
      "laneLoop cfg start clk rid evs st2 = (acts2, st', True)"
      by (cases e) (auto split: prod.splits)
    from Cons.IH[OF this] show ?thesis .
  qed
qed

text \<open>
  C5.  In token_limit mode with limit \<open>L > 0\<close>, a lane with a key whose stream begins with
  more than \<open>L\<close> chunks dispatches the first \<open>L\<close> chunks and nothing more of the stream,
  and then the synthetic metrics, whose tokenCount and outputTokens are \<open>L\<close>.
\<close>

theorem token_limit_truncates:
  assumes m: "mode (raceConfig s) = Token_limit" and l: "tokenLimit (raceConfig s) = Some L"
    and p: "0 < L"
    and key: "apiKeys s (providerId pr) = Some k" "k \<noteq> []"
    and ev: "events (streamCompletion env (laneCall s pr k)) = map Chunk cs @ rest"
    and len: "L < int (length cs)"
  shows "laneTask env s pr
           = map (RECEIVE_CHUNK (resultId pr)) (take (nat L) cs)
             @ [FINISH_STREAM (resultId pr)
                  (syntheticMetrics (raceStartTime env) (laneClock env pr 0) L)]
       \<and> int (length (take (nat L) cs)) = L
       \<and> outputTokens (syntheticMetrics (raceStartTime env) (laneClock env pr 0) L) = Some L
       \<and> tokenCount (syntheticMetrics (raceStartTime env) (laneClock env pr 0) L) = L"
proof -
  have "laneLoop (raceConfig s) (raceStartTime env) (laneClock env pr) (resultId pr)
          (map Chunk cs @ rest) loopStart
        = (map (RECEIVE_CHUNK (resultId pr)) (take (nat (L - l_tokenCount loopStart)) cs),
           loopStart\<lparr>l_tokenCount := L\<rparr>, True)"
    using p len by (intro laneLoop_token_limit[OF m l p]) (simp_all add: loopStart_def)
  then have lp: "laneLoop (raceConfig s) (raceStartTime env) (laneClock env pr) (resultId pr)
          (map Chunk cs @ rest) \<lparr>l_tokenCount = 0, l_sawMetrics = False, l_clock = 0\<rparr>
        = (map (RECEIVE_CHUNK (resultId pr)) (take (nat L) cs),
           \<lparr>l_tokenCount = L, l_sawMetrics = False, l_clock = 0\<rparr>, True)"
    by (simp add: loopStart_def)
  have "laneTask env s pr
           = map (RECEIVE_CHUNK (resultId pr)) (take (nat L) cs)
             @ [FINISH_STREAM (resultId pr)
                  (syntheticMetrics (raceStartTime env) (laneClock env pr 0) L)]"
    using key ev lp m by (simp add: laneTask_def laneRun_def laneEnd_def Let_def)
  moreover have "int (length (take (nat L) cs)) = L" using p len by simp
  ultimately show ?thesis by (simp add: syntheticMetrics_def)
qed

lemma demo_key:
  "apiKeys (demo_state m) (providerId cerebras_pair) = Some (js ''sk-1'')"
  by (simp add: demo_state_def cerebras_pair_def)

lemma demo_events:
  "events (streamCompletion demo_env c)
     = map Chunk [js ''Hi'', js ''!'']
       @ [Metrics \<lparr> startTime = 1000, firstTokenTime = Some 1010, finishTime = 1020,
                    tokenCount = 3, inputTokens = Some 2, outputTokens = Some 1 \<rparr>]"
  by (simp add: demo_env_def demo_stream_def)

theorem token_limit_truncates_witness:
  "mode (raceConfig (demo_state Token_limit)) = Token_limit
 \<and> tokenLimit (raceConfig (demo_state Token_limit)) = Some 1
 \<and> (1::int) < int (length [js ''Hi'', js ''!''])
 \<and> laneTask demo_env (demo_state Token_limit) cerebras_pair
     = [RECEIVE_CHUNK (resultId cerebras_pair) (js ''Hi''),
        FINISH_STREAM (resultId cerebras_pair) (syntheticMetrics 1000 1020 1)]
 \<and> outputTokens (syntheticMetrics 1000 1020 1) = Some 1"
proof -
  have m: "mode (raceConfig (demo_state Token_limit)) = Token_limit"
    and l: "tokenLimit (raceConfig (demo_state Token_limit)) = Some 1"
    by (simp_all add: demo_state_def demo_config_def)
  have k: "js ''sk-1'' \<noteq> []" by (simp add: js_def)
  have len: "(1::int) < int (length [js ''Hi'', js ''!''])" by simp
  note th = token_limit_truncates[OF m l _ demo_key k demo_events len]
  have e: "raceStartTime demo_env = 1000" "laneClock demo_env cerebras_pair 0 = 1020"
    by (simp_all add: demo_env_def)
  show ?thesis using th m l len by (simp add: e)
qed

text \<open>
  C6, as the code has it.  When the loop of a lane is left by a limit check and no metrics
  event had arrived, the lane dispatches synthetic metrics with startTime the race start,
  finishTime the clock value read after the loop, tokenCount and outputTokens the number
  of chunks dispatched, and firstTokenTime the race start plus 100 in every case: the
  orchestrator records no first-token time of its own.
\<close>

theorem synthesized_metrics_fields:
  assumes key: "apiKeys s (providerId pr) = Some k" "k \<noteq> []"
    and loop: "laneLoop (raceConfig s) (raceStartTime env) (laneClock env pr) (resultId pr)
                 (events (streamCompletion env (laneCall s pr k))) loopStart = (acts, st, True)"
    and nm: "\<not> l_sawMetrics st"
  shows "laneTask env s pr
           = acts @ [FINISH_STREAM (resultId pr)
                       \<lparr> startTime = raceStartTime env,
                         firstTokenTime = Some (raceStartTime env + 100),
                         finishTime = laneClock env pr (l_clock st),
                         tokenCount = l_tokenCount st,
                         inputTokens = None,
                         outputTokens = Some (l_tokenCount st) \<rparr>]
       \<and> l_tokenCount st = int (length (filter isReceive acts))"
proof -
  have md: "mode (raceConfig s) = Token_limit \<or> mode (raceConfig s) = Time_limit"
    using laneLoop_broke_mode[OF loop] .
  have c: "l_tokenCount st = int (length (filter isReceive acts))"
    using laneLoop_counter[OF loop] by (simp add: loopStart_def)
  from loop have loop': "laneLoop (raceConfig s) (raceStartTime env) (laneClock env pr) (resultId pr)
                 (events (streamCompletion env (laneCall s pr k)))
                 \<lparr>l_tokenCount = 0, l_sawMetrics = False, l_clock = 0\<rparr> = (acts, st, True)"
    by (simp add: loopStart_def)
  have "laneTask env s pr = acts @ [FINISH_STREAM (resultId pr)
          (syntheticMetrics (raceStartTime env) (laneClock env pr (l_clock st)) (l_tokenCount st))]"
    using key loop' nm md by (auto simp: laneTask_def laneRun_def laneEnd_def Let_def)
  with c show ?thesis by (simp add: syntheticMetrics_def)
qed

lemma slow_loop:
  "laneLoop (raceConfig (demo_state Time_limit)) (raceStartTime slow_env)
     (laneClock slow_env cerebras_pair) (resultId cerebras_pair)
     (events (streamCompletion slow_env (laneCall (demo_state Time_limit) cerebras_pair (js ''sk-1''))))
     loopStart
   = ([RECEIVE_CHUNK (resultId cerebras_pair) (js ''Hi'')],
      \<lparr>l_tokenCount = 1, l_sawMetrics = False, l_clock = 2\<rparr>, True)"
  by (simp add: limitCheck_def limitSet_def slow_env_def demo_state_def demo_config_def
        demo_stream_def loopStart_def Let_def)

theorem synthesized_metrics_fields_witness:
  "\<not> l_sawMetrics \<lparr>l_tokenCount = 1, l_sawMetrics = False, l_clock = 2\<rparr>
 \<and> laneTask slow_env (demo_state Time_limit) cerebras_pair
     = [RECEIVE_CHUNK (resultId cerebras_pair) (js ''Hi''),
        FINISH_STREAM (resultId cerebras_pair)
          \<lparr> startTime = 1000, firstTokenTime = Some 1100, finishTime = 32002,
            tokenCount = 1, inputTokens = None, outputTokens = Some 1 \<rparr>]"
proof -
  have k: "js ''sk-1'' \<noteq> []" by (simp add: js_def)
  have nm: "\<not> l_sawMetrics \<lparr>l_tokenCount = 1, l_sawMetrics = False, l_clock = 2\<rparr>" by simp
  note th = synthesized_metrics_fields[OF demo_key k slow_loop nm]
  have e: "raceStartTime slow_env = 1000" "laneClock slow_env cerebras_pair 2 = 32002"
    by (simp_all add: slow_env_def)
  show ?thesis using th by (simp add: e)
qed

text \<open>
  C6 as stated makes the approximate first-token time depend on no real one having been
  captured.  Here the first chunk reached the lane at clock value 6000 and was
  dispatched, and the synthetic firstTokenTime is 1100 all the same.
\<close>

theorem approximate_first_token_always:
  "laneTask slow_env (demo_state Time_limit) cerebras_pair
     = [RECEIVE_CHUNK (js ''cerebras-llama3.1-8b'') (js ''Hi''),
        FINISH_STREAM (js ''cerebras-llama3.1-8b'')
          \<lparr> startTime = 1000, firstTokenTime = Some 1100, finishTime = 32002,
            tokenCount = 1, inputTokens = None, outputTokens = Some 1 \<rparr>]
 \<and> laneClock slow_env cerebras_pair 0 = 6000"
  by (simp add: laneTask_def laneRun_def laneEnd_def limitCheck_def limitSet_def syntheticMetrics_def
        slow_env_def demo_state_def demo_config_def demo_stream_def cerebras_pair_def
        resultId_def laneCall_def js_def Let_def)


section \<open>Lanes do not disturb each other\<close>

lemma appReducer_laneApply:
  "target a \<noteq> None \<Longrightarrow> appReducer s a = s\<lparr>results := map (laneApply a) (results s)\<rparr>"
  by (cases a) (simp_all cong: map_cong)

lemma dispatchAll_laneApply:
  "\<forall>a\<in>set acts. target a \<noteq> None \<Longrightarrow>
   dispatchAll s acts = s\<lparr>results := map (\<lambda>r. foldl (\<lambda>r a. laneApply a r) r acts) (results s)\<rparr>"
proof (induction acts arbitrary: s)
  case Nil
  then show ?case by (simp add: dispatchAll_def)
next
  case (Cons a acts)
  then have ta: "target a \<noteq> None" and rest: "\<forall>a\<in>set acts. target a \<noteq> None" by simp_all
  have "dispatchAll s (a # acts) = dispatchAll (appReducer s a) acts" by (simp add: dispatchAll_def)
  also have "\<dots> = (appReducer s a)\<lparr>results :=
      map (\<lambda>r. foldl (\<lambda>r a. laneApply a r) r acts) (results (appReducer s a))\<rparr>"
    by (rule Cons.IH[OF rest])
  finally show ?case by (simp add: appReducer_laneApply[OF ta] comp_def)
qed

lemma laneApply_id: "id' (laneApply a r) = id' r"
  by (cases a) simp_all

lemma laneApply_other: "target a \<noteq> Some (id' r) \<Longrightarrow> laneApply a r = r"
  by (cases a) auto

lemma foldl_laneApply_id: "id' (foldl (\<lambda>r a. laneApply a r) r acts) = id' r"
  by (induction acts arbitrary: r) (simp_all add: laneApply_id)

lemma foldl_laneApply_filter:
  "foldl (\<lambda>r a. laneApply a r) r acts
     = foldl (\<lambda>r a. laneApply a r) r (filter (\<lambda>a. target a = Some (id' r)) acts)"
proof (induction acts arbitrary: r)
  case Nil
  show ?case by simp
next
  case (Cons a acts)
  show ?case
  proof (cases "target a = Some (id' r)")
    case True
    then show ?thesis using Cons.IH[of "laneApply a r"] by (simp add: laneApply_id)
  next
    case False
    then show ?thesis using Cons.IH[of r] by (simp add: laneApply_other)
  qed
qed

lemma interleaving_filter:
  assumes "interleaving xss zs"
  shows "length ids = length xss \<Longrightarrow> distinct ids \<Longrightarrow>
         (\<forall>i<length xss. \<forall>a\<in>set (xss ! i). target a = Some (ids ! i)) \<Longrightarrow>
         i < length xss \<Longrightarrow> filter (\<lambda>a. target a = Some (ids ! i)) zs = xss ! i"
  using assms
proof (induction arbitrary: i rule: interleaving.induct)
  case (all_done xss)
  then have "xss ! i \<in> set xss" by simp
  with all_done.hyps have "xss ! i = []" by blast
  then show ?case by simp
next
  case (one_more j xss a rest zs)
  have tj: "target a = Some (ids ! j)" using one_more.prems(3) one_more.hyps(1,2) by force
  have len: "length ids = length (xss[j := rest])" using one_more.prems(1) by simp
  have tg: "\<forall>i<length (xss[j := rest]). \<forall>a\<in>set (xss[j := rest] ! i). target a = Some (ids ! i)"
  proof (intro allI impI ballI)
    fix i b assume i: "i < length (xss[j := rest])" and b: "b \<in> set (xss[j := rest] ! i)"
    show "target b = Some (ids ! i)"
    proof (cases "i = j")
      case True
      with b one_more.hyps(1) have "b \<in> set rest" by simp
      then have "b \<in> set (xss ! j)" using one_more.hyps(2) by simp
      with one_more.prems(3) one_more.hyps(1) True show ?thesis by blast
    next
      case False
      with b have "b \<in> set (xss ! i)" by simp
      with one_more.prems(3) i show ?thesis by simp
    qed
  qed
  have il: "i < length (xss[j := rest])" using one_more.prems(4) by simp
  have ih: "filter (\<lambda>a. target a = Some (ids ! i)) zs = xss[j := rest] ! i"
    by (rule one_more.IH[OF len one_more.prems(2) tg il])
  show ?case
  proof (cases "i = j")
    case True
    with ih tj one_more.hyps show ?thesis by simp
  next
    case False
    have "ids ! i \<noteq> ids ! j"
      using False one_more.prems(1,2,4) one_more.hyps(1) by (simp add: nth_eq_iff_index_eq)
    with ih tj False show ?thesis by simp
  qed
qed


lemma laneLoop_targets:
  "laneLoop cfg start clk rid evs st = (acts, st', b) \<Longrightarrow> \<forall>a\<in>set acts. target a = Some rid"
proof (induction evs arbitrary: st acts st' b)
  case Nil
  then show ?case by simp
next
  case (Cons e evs)
  obtain st1 stop where lc: "limitCheck cfg start clk st = (st1, stop)" by force
  show ?case
  proof (cases stop)
    case True
    with Cons.prems lc show ?thesis by simp
  next
    case False
    show ?thesis
    proof (cases e)
      case (Chunk content)
      with Cons.prems lc False obtain acts2 where
        r: "laneLoop cfg start clk rid evs (st1\<lparr>l_tokenCount := l_tokenCount st1 + 1\<rparr>) = (acts2, st', b)"
        and a: "acts = RECEIVE_CHUNK rid content # acts2"
        by (auto split: prod.splits)
      from Cons.IH[OF r] a show ?thesis by simp
    next
      case (Metrics data)
      with Cons.prems lc False obtain acts2 where
        r: "laneLoop cfg start clk rid evs (st1\<lparr>l_sawMetrics := True\<rparr>) = (acts2, st', b)"
        and a: "acts = FINISH_STREAM rid data # acts2"
        by (auto split: prod.splits)
      from Cons.IH[OF r] a show ?thesis by simp
    qed
  qed
qed

lemma laneEnd_targets: "\<forall>a\<in>set (laneEnd cfg start clk rid failed e). target a = Some rid"
  by (auto simp: laneEnd_def split: prod.splits option.splits if_splits)

lemma laneRun_targets: "\<forall>a\<in>set (laneRun env s p call). target a = Some (resultId p)"
proof -
  obtain acts st b where l: "laneLoop (raceConfig s) (raceStartTime env) (laneClock env p) (resultId p)
      (events (streamCompletion env call))
      \<lparr>l_tokenCount = 0, l_sawMetrics = False, l_clock = 0\<rparr> = (acts, st, b)"
    by (metis prod_cases3)
  from laneLoop_targets[OF l] laneEnd_targets l show ?thesis
    by (auto simp: laneRun_def Let_def)
qed

lemma laneTask_targets: "\<forall>a\<in>set (laneTask env s p). target a = Some (resultId p)"
  using laneTask_cases[of env s p] laneRun_targets[of env s p] by auto

lemma laneAlone_foldl:
  assumes "\<forall>a\<in>set acts. target a \<noteq> None"
  shows "laneAlone s p acts = foldl (\<lambda>r a. laneApply a r) (stagedLane p) acts"
  unfolding laneAlone_def dispatchAll_laneApply[OF assms] by simp

lemma dispatch_countdown:
  "dispatchAll s (countdown b) = s\<lparr>raceState := Racing, countdownValue := None\<rparr>"
  by (simp add: dispatchAll_def countdown_def)

lemma dispatchAll_append: "dispatchAll s (xs @ ys) = dispatchAll (dispatchAll s xs) ys"
  by (simp add: dispatchAll_def)

lemma dispatchAll_Cons: "dispatchAll s (a # xs) = dispatchAll (appReducer s a) xs"
  by (simp add: dispatchAll_def)

lemma interleaving_targets:
  "interleaving xss zs \<Longrightarrow> (\<forall>xs\<in>set xss. \<forall>a\<in>set xs. target a \<noteq> None)
     \<Longrightarrow> \<forall>a\<in>set zs. target a \<noteq> None"
proof (induction rule: interleaving.induct)
  case (all_done xss)
  then show ?case by simp
next
  case (one_more i xss a rest zs)
  have mem: "xss ! i \<in> set xss" using one_more.hyps(1) by simp
  have ta: "target a \<noteq> None" using one_more.prems mem one_more.hyps(2) by force
  have "\<forall>xs\<in>set (xss[i := rest]). \<forall>a\<in>set xs. target a \<noteq> None"
  proof (intro ballI)
    fix xs b assume xs: "xs \<in> set (xss[i := rest])" and b: "b \<in> set xs"
    from xs have "xs = rest \<or> xs \<in> set xss" using set_update_subset_insert by fastforce
    then show "target b \<noteq> None"
    proof
      assume "xs = rest"
      with b have "b \<in> set (xss ! i)" using one_more.hyps(2) by simp
      with one_more.prems mem show ?thesis by blast
    next
      assume "xs \<in> set xss"
      with one_more.prems b show ?thesis by blast
    qed
  qed
  from one_more.IH[OF this] ta show ?case by simp
qed

lemma run_state:
  assumes run: "handleRunComparison env s acts" and ne: "providersToTest s \<noteq> []"
  obtains lanes where
    "interleaving (map (laneTask env s) (providersToTest s)) lanes"
    "acts = START_COMPARISON (providersToTest s) # countdown (reduceMotion env) @ lanes @ [FINISH_COMPARISON]"
    "dispatchAll s acts
       = s\<lparr>isLoading_app := False, raceState := Finished, countdownValue := None,
           results := map (\<lambda>r. foldl (\<lambda>r a. laneApply a r) r lanes)
                        (map stagedLane (providersToTest s))\<rparr>"
proof -
  from run ne obtain lanes where
    il: "interleaving (map (laneTask env s) (providersToTest s)) lanes"
    and a: "acts = START_COMPARISON (providersToTest s) # countdown (reduceMotion env) @ lanes @ [FINISH_COMPARISON]"
    by (auto elim: handleRunComparison.cases)
  have "\<forall>xs\<in>set (map (laneTask env s) (providersToTest s)). \<forall>a\<in>set xs. target a \<noteq> None"
    using laneTask_targets by fastforce
  from interleaving_targets[OF il this] have tl: "\<forall>a\<in>set lanes. target a \<noteq> None" .
  have "dispatchAll s acts
       = s\<lparr>isLoading_app := False, raceState := Finished, countdownValue := None,
           results := map (\<lambda>r. foldl (\<lambda>r a. laneApply a r) r lanes)
                        (map stagedLane (providersToTest s))\<rparr>"
    unfolding a dispatchAll_Cons dispatchAll_append dispatch_countdown dispatchAll_laneApply[OF tl]
    by (simp add: dispatchAll_def)
  with il a that show thesis by blast
qed

lemma run_results:
  assumes run: "handleRunComparison env s acts" and ne: "providersToTest s \<noteq> []"
    and ids: "distinct (map resultId (providersToTest s))"
  shows "results (dispatchAll s acts)
           = map (\<lambda>p. laneAlone s p (laneTask env s p)) (providersToTest s)"
proof -
  let ?ps = "providersToTest s"
  from run_state[OF run ne] obtain lanes where
    il: "interleaving (map (laneTask env s) ?ps) lanes"
    and d: "dispatchAll s acts
       = s\<lparr>isLoading_app := False, raceState := Finished, countdownValue := None,
           results := map (\<lambda>r. foldl (\<lambda>r a. laneApply a r) r lanes) (map stagedLane ?ps)\<rparr>"
    by blast
  have tg: "\<forall>i<length (map (laneTask env s) ?ps). \<forall>a\<in>set (map (laneTask env s) ?ps ! i).
              target a = Some (map resultId ?ps ! i)"
    using laneTask_targets by simp
  have each: "foldl (\<lambda>r a. laneApply a r) (stagedLane (?ps ! i)) lanes
                = laneAlone s (?ps ! i) (laneTask env s (?ps ! i))" if i: "i < length ?ps" for i
  proof -
    have f: "filter (\<lambda>a. target a = Some (map resultId ?ps ! i)) lanes = map (laneTask env s) ?ps ! i"
      using interleaving_filter[OF il _ ids tg, of i] i by simp
    have idr: "id' (stagedLane (?ps ! i)) = map resultId ?ps ! i"
      using i by (simp add: stagedLane_def)
    have "foldl (\<lambda>r a. laneApply a r) (stagedLane (?ps ! i)) lanes
            = foldl (\<lambda>r a. laneApply a r) (stagedLane (?ps ! i))
                (filter (\<lambda>a. target a = Some (id' (stagedLane (?ps ! i)))) lanes)"
      by (rule foldl_laneApply_filter)
    also have "\<dots> = foldl (\<lambda>r a. laneApply a r) (stagedLane (?ps ! i)) (laneTask env s (?ps ! i))"
      unfolding idr f using i by simp
    also have "\<dots> = laneAlone s (?ps ! i) (laneTask env s (?ps ! i))"
      using laneTask_targets[of env s "?ps ! i"] by (intro laneAlone_foldl[symmetric]) auto
    finally show ?thesis .
  qed
  have "map (\<lambda>r. foldl (\<lambda>r a. laneApply a r) r lanes) (map stagedLane ?ps)
          = map (\<lambda>p. laneAlone s p (laneTask env s p)) ?ps"
    by (rule nth_equalityI) (simp_all add: each)
  with d show ?thesis by simp
qed

lemma laneTask_noKey:
  "noKey (apiKeys s (providerId p)) \<Longrightarrow> providerId p \<notin> set objectPrototypeMembers \<Longrightarrow>
   laneTask env s p = [SET_ERROR (resultId p) (js ''API Key not set'')]"
  by (auto simp: noKey_def laneTask_def)

lemma laneTask_key:
  "apiKeys s (providerId p) = Some k \<Longrightarrow> k \<noteq> [] \<Longrightarrow>
   laneTask env s p = laneRun env s p (laneCall s p k)"
  by (simp add: laneTask_def)

text \<open>
  With no key stored, a provider id that names a member of \<^verbatim>\<open>Object.prototype\<close> passes the
  guard, and the Completion Client is called with that member as the key.
\<close>

lemma laneTask_inherited:
  "apiKeys s (providerId p) = None \<Longrightarrow> providerId p \<in> set objectPrototypeMembers \<Longrightarrow>
   laneTask env s p = laneRun env s p (laneCallInherited s p)"
  by (simp add: laneTask_def)

lemma laneLoop_unlimited:
  assumes "mode cfg = Drag \<or> mode cfg = Free_for_all"
  shows "laneLoop cfg start clk rid (map Chunk cs @ [Metrics m]) st
           = (map (RECEIVE_CHUNK rid) cs @ [FINISH_STREAM rid m],
              st\<lparr>l_tokenCount := l_tokenCount st + int (length cs), l_sawMetrics := True\<rparr>, False)"
proof -
  have lc: "limitCheck cfg start clk st' = (st', False)" for st'
    using assms by (auto simp: limitCheck_def)
  show ?thesis
  proof (induction cs arbitrary: st)
    case Nil
    show ?case by (simp add: lc)
  next
    case (Cons c cs)
    show ?case by (simp add: lc Cons.IH) 
  qed
qed

lemma foldl_receive:
  "id' r = rid \<Longrightarrow>
   foldl (\<lambda>r a. laneApply a r) r (map (RECEIVE_CHUNK rid) cs)
     = r\<lparr>responseText := responseText r @ concat cs\<rparr>"
  by (induction cs arbitrary: r) simp_all

lemma laneAlone_noKey:
  assumes "noKey (apiKeys s (providerId p))" "providerId p \<notin> set objectPrototypeMembers"
  shows "laneAlone s p (laneTask env s p)
           = (stagedLane p)\<lparr>isLoading := False, error := Some (js ''API Key not set'')\<rparr>"
proof -
  have "laneAlone s p [SET_ERROR (resultId p) (js ''API Key not set'')]
          = foldl (\<lambda>r a. laneApply a r) (stagedLane p) [SET_ERROR (resultId p) (js ''API Key not set'')]"
    by (rule laneAlone_foldl) simp
  then show ?thesis by (simp add: laneTask_noKey[OF assms] stagedLane_def)
qed

lemma laneTask_unlimited:
  assumes key: "apiKeys s (providerId q) = Some k" "k \<noteq> []"
    and md: "mode (raceConfig s) = Drag \<or> mode (raceConfig s) = Free_for_all"
    and st: "streamCompletion env (laneCall s q k) = \<lparr>events = map Chunk cs @ [Metrics m], thrown = None\<rparr>"
  shows "laneTask env s q = map (RECEIVE_CHUNK (resultId q)) cs @ [FINISH_STREAM (resultId q) m]"
  using st by (simp add: laneTask_key[OF key] laneRun_def laneLoop_unlimited[OF md] laneEnd_def Let_def)

lemma laneAlone_unlimited:
  assumes key: "apiKeys s (providerId q) = Some k" "k \<noteq> []"
    and md: "mode (raceConfig s) = Drag \<or> mode (raceConfig s) = Free_for_all"
    and st: "streamCompletion env (laneCall s q k) = \<lparr>events = map Chunk cs @ [Metrics m], thrown = None\<rparr>"
  shows "laneAlone s q (laneTask env s q)
           = (stagedLane q)\<lparr>responseText := concat cs, isLoading := False, metrics := Some m\<rparr>"
proof -
  let ?acts = "map (RECEIVE_CHUNK (resultId q)) cs @ [FINISH_STREAM (resultId q) m]"
  have t: "laneTask env s q = ?acts" by (rule laneTask_unlimited[OF key md st])
  have "laneAlone s q ?acts = foldl (\<lambda>r a. laneApply a r) (stagedLane q) ?acts"
    by (rule laneAlone_foldl) auto
  also have "\<dots> = laneApply (FINISH_STREAM (resultId q) m)
                     (foldl (\<lambda>r a. laneApply a r) (stagedLane q) (map (RECEIVE_CHUNK (resultId q)) cs))"
    by simp
  also have "foldl (\<lambda>r a. laneApply a r) (stagedLane q) (map (RECEIVE_CHUNK (resultId q)) cs)
               = (stagedLane q)\<lparr>responseText := responseText (stagedLane q) @ concat cs\<rparr>"
    by (rule foldl_receive) (simp add: stagedLane_def)
  finally show ?thesis by (simp add: t stagedLane_def)
qed

lemma laneRun_thrown:
  assumes "laneLoop (raceConfig s) (raceStartTime env) (laneClock env f) (resultId f)
             (events (streamCompletion env call)) loopStart = (sent, st, False)"
    and "thrown (streamCompletion env call) = Some msg"
  shows "laneRun env s f call = sent @ [SET_ERROR (resultId f) msg]"
  using assms by (simp add: laneRun_def laneEnd_def loopStart_def Let_def)

lemma laneAlone_error:
  assumes "\<forall>a\<in>set sent. target a = Some (resultId f)"
  shows "laneAlone s f (sent @ [SET_ERROR (resultId f) msg])
           = (foldl (\<lambda>r a. laneApply a r) (stagedLane f) sent)\<lparr>isLoading := False, error := Some msg\<rparr>"
proof -
  have "laneAlone s f (sent @ [SET_ERROR (resultId f) msg])
          = foldl (\<lambda>r a. laneApply a r) (stagedLane f) (sent @ [SET_ERROR (resultId f) msg])"
    using assms by (intro laneAlone_foldl) auto
  moreover have "id' (foldl (\<lambda>r a. laneApply a r) (stagedLane f) sent) = resultId f"
    by (simp add: foldl_laneApply_id stagedLane_def)
  ultimately show ?thesis by simp
qed

lemma laneLoop_chunks_unlimited:
  assumes "mode cfg = Drag \<or> mode cfg = Free_for_all"
  shows "laneLoop cfg start clk rid (map Chunk cs) st
           = (map (RECEIVE_CHUNK rid) cs, st\<lparr>l_tokenCount := l_tokenCount st + int (length cs)\<rparr>, False)"
proof -
  have lc: "limitCheck cfg start clk st' = (st', False)" for st'
    using assms by (auto simp: limitCheck_def)
  show ?thesis
  proof (induction cs arbitrary: st)
    case Nil
    show ?case by simp
  next
    case (Cons c cs)
    show ?case by (simp add: lc Cons.IH)
  qed
qed

lemma laneRun_no_metrics:
  assumes md: "mode (raceConfig s) = Drag \<or> mode (raceConfig s) = Free_for_all"
    and st: "streamCompletion env call = \<lparr>events = map Chunk ts, thrown = None\<rparr>"
  shows "laneRun env s u call
           = map (RECEIVE_CHUNK (resultId u)) ts
             @ [SET_ERROR (resultId u) (js ''Stream ended without metrics'')]"
  using md st by (auto simp: laneRun_def laneLoop_chunks_unlimited[OF md] laneEnd_def Let_def)

lemma laneRun_client:
  "call \<noteq> c \<Longrightarrow>
   laneRun (env\<lparr>streamCompletion := (streamCompletion env)(c := other)\<rparr>) s p call
     = laneRun env s p call"
  by (simp add: laneRun_def)

lemma laneCall_pair:
  "sib \<noteq> f \<Longrightarrow> laneCall s sib k \<noteq> laneCall s f kf"
  by (auto simp: laneCall_def)

lemma laneTask_client:
  assumes "sib \<noteq> f"
  shows "laneTask (env\<lparr>streamCompletion := (streamCompletion env)(laneCall s f kf := other)\<rparr>) s sib
           = laneTask env s sib"
proof -
  have a: "laneCall s sib k \<noteq> laneCall s f kf" for k by (rule laneCall_pair[OF assms])
  have b: "laneCallInherited s sib \<noteq> laneCall s f kf"
    by (simp add: laneCallInherited_def laneCall_def)
  show ?thesis by (simp add: laneTask_def laneRun_client[OF a] laneRun_client[OF b] split: option.splits)
qed

text \<open>Lane ids are distinct for distinct pairs when no provider id holds a hyphen.\<close>

lemma append_sep_inject:
  assumes "c \<notin> set a" "c \<notin> set b" "a @ c # x = b @ c # y"
  shows "a = b \<and> x = y"
  using assms
proof (induction a arbitrary: b)
  case Nil
  then show ?case by (cases b) auto
next
  case (Cons h a)
  then show ?case by (cases b) auto
qed

lemma resultId_inject:
  assumes "45 \<notin> set (providerId a)" "45 \<notin> set (providerId b)" "resultId a = resultId b"
  shows "a = b"
proof -
  have "providerId a @ 45 # modelId a = providerId b @ 45 # modelId b"
    using assms(3) by (simp add: resultId_def js_def)
  from append_sep_inject[OF assms(1,2) this] show ?thesis by simp
qed

text \<open>
  C7.  In every run of a race whose lanes have distinct ids, whatever the order in which
  the lanes' dispatches arrive, each lane ends as it would have ended alone: what one
  lane records, errors included, never alters another lane; and the race ends finished.
  A lane whose provider has no key, or the empty key, and whose provider id does not name
  a member of \<^verbatim>\<open>Object.prototype\<close>, dispatches just the error \<^verbatim>\<open>API Key not set\<close>,
  whatever the Completion Client would do (it is not called), and ends in error with that
  message.  A lane with a key, in drag or free_for_all mode, whose stream gives chunks and
  then metrics, ends with the chunks' text, the metrics and isLoading cleared.  A lane
  with a key whose stream throws (an HTTP error status, a network failure) without a
  limit having cut the loop dispatches what the loop dispatched and then the error with
  the exception's message, and ends as after the loop but with that message as its error
  and isLoading cleared; when the stream throws before any event, the lane dispatches
  that error only.  A lane with a key, in drag or free_for_all mode, whose stream ends
  without a metrics event dispatches its chunks and then the error
  \<^verbatim>\<open>Stream ended without metrics\<close>, and ends with the chunks' text and that error.  What a
  lane dispatches does not depend on what the Completion Client returns for the call of
  another lane.  So with two lanes of which exactly one has no key, that one ends in error
  and the other one finished.
\<close>

theorem lane_failures_isolated:
  assumes run: "handleRunComparison env s acts"
    and lanes: "providersToTest s \<noteq> []"
    and ids: "distinct (map resultId (providersToTest s))"
  shows "results (dispatchAll s acts)
           = map (\<lambda>p. laneAlone s p (laneTask env s p)) (providersToTest s)
       \<and> raceState (dispatchAll s acts) = Finished
       \<and> (noKey (apiKeys s (providerId p)) \<and> providerId p \<notin> set objectPrototypeMembers \<longrightarrow>
            laneTask env s p = [SET_ERROR (resultId p) (js ''API Key not set'')]
          \<and> laneTask (env\<lparr>streamCompletion := anyClient\<rparr>) s p = laneTask env s p
          \<and> laneAlone s p (laneTask env s p)
              = (stagedLane p)\<lparr>isLoading := False, error := Some (js ''API Key not set'')\<rparr>)
       \<and> (apiKeys s (providerId q) = Some k \<and> k \<noteq> []
            \<and> (mode (raceConfig s) = Drag \<or> mode (raceConfig s) = Free_for_all)
            \<and> streamCompletion env (laneCall s q k)
                = \<lparr>events = map Chunk cs @ [Metrics m], thrown = None\<rparr> \<longrightarrow>
            laneAlone s q (laneTask env s q)
              = (stagedLane q)\<lparr>responseText := concat cs, isLoading := False, metrics := Some m\<rparr>)
       \<and> (apiKeys s (providerId f) = Some kf \<and> kf \<noteq> []
            \<and> laneLoop (raceConfig s) (raceStartTime env) (laneClock env f) (resultId f)
                 (events (streamCompletion env (laneCall s f kf))) loopStart = (sent, st, False)
            \<and> thrown (streamCompletion env (laneCall s f kf)) = Some msg \<longrightarrow>
            laneTask env s f = sent @ [SET_ERROR (resultId f) msg]
          \<and> laneAlone s f (laneTask env s f)
              = (laneAlone s f sent)\<lparr>isLoading := False, error := Some msg\<rparr>
          \<and> (events (streamCompletion env (laneCall s f kf)) = [] \<longrightarrow>
               laneTask env s f = [SET_ERROR (resultId f) msg]
             \<and> laneAlone s f (laneTask env s f)
                 = (stagedLane f)\<lparr>isLoading := False, error := Some msg\<rparr>))
       \<and> (apiKeys s (providerId u) = Some ku \<and> ku \<noteq> []
            \<and> (mode (raceConfig s) = Drag \<or> mode (raceConfig s) = Free_for_all)
            \<and> streamCompletion env (laneCall s u ku) = \<lparr>events = map Chunk ts, thrown = None\<rparr> \<longrightarrow>
            laneTask env s u
              = map (RECEIVE_CHUNK (resultId u)) ts
                @ [SET_ERROR (resultId u) (js ''Stream ended without metrics'')]
          \<and> laneAlone s u (laneTask env s u)
              = (stagedLane u)\<lparr>responseText := concat ts, isLoading := False,
                                error := Some (js ''Stream ended without metrics'')\<rparr>)
       \<and> (sib \<noteq> f \<longrightarrow>
            laneTask (env\<lparr>streamCompletion := (streamCompletion env)(laneCall s f kf := other)\<rparr>) s sib
              = laneTask env s sib)"
proof (intro conjI impI)
  show "results (dispatchAll s acts)
           = map (\<lambda>p. laneAlone s p (laneTask env s p)) (providersToTest s)"
    by (rule run_results[OF run lanes ids])
  from run_state[OF run lanes] obtain ls where
    "dispatchAll s acts
       = s\<lparr>isLoading_app := False, raceState := Finished, countdownValue := None,
           results := map (\<lambda>r. foldl (\<lambda>r a. laneApply a r) r ls)
                        (map stagedLane (providersToTest s))\<rparr>"
    by blast
  then show "raceState (dispatchAll s acts) = Finished" by simp
next
  assume "noKey (apiKeys s (providerId p)) \<and> providerId p \<notin> set objectPrototypeMembers"
  then have nk: "noKey (apiKeys s (providerId p))" and np: "providerId p \<notin> set objectPrototypeMembers"
    by blast+
  show "laneTask env s p = [SET_ERROR (resultId p) (js ''API Key not set'')]"
    by (rule laneTask_noKey[OF nk np])
  show "laneTask (env\<lparr>streamCompletion := anyClient\<rparr>) s p = laneTask env s p"
    by (simp add: laneTask_noKey[OF nk np])
  show "laneAlone s p (laneTask env s p)
              = (stagedLane p)\<lparr>isLoading := False, error := Some (js ''API Key not set'')\<rparr>"
    by (rule laneAlone_noKey[OF nk np])
next
  assume h: "apiKeys s (providerId q) = Some k \<and> k \<noteq> []
            \<and> (mode (raceConfig s) = Drag \<or> mode (raceConfig s) = Free_for_all)
            \<and> streamCompletion env (laneCall s q k)
                = \<lparr>events = map Chunk cs @ [Metrics m], thrown = None\<rparr>"
  then show "laneAlone s q (laneTask env s q)
              = (stagedLane q)\<lparr>responseText := concat cs, isLoading := False, metrics := Some m\<rparr>"
    by (intro laneAlone_unlimited) auto
next
  assume h: "apiKeys s (providerId f) = Some kf \<and> kf \<noteq> []
            \<and> laneLoop (raceConfig s) (raceStartTime env) (laneClock env f) (resultId f)
                 (events (streamCompletion env (laneCall s f kf))) loopStart = (sent, st, False)
            \<and> thrown (streamCompletion env (laneCall s f kf)) = Some msg"
  then have key: "apiKeys s (providerId f) = Some kf" "kf \<noteq> []"
    and loop: "laneLoop (raceConfig s) (raceStartTime env) (laneClock env f) (resultId f)
                 (events (streamCompletion env (laneCall s f kf))) loopStart = (sent, st, False)"
    and thr: "thrown (streamCompletion env (laneCall s f kf)) = Some msg"
    by blast+
  show t: "laneTask env s f = sent @ [SET_ERROR (resultId f) msg]"
    by (simp add: laneTask_key[OF key] laneRun_thrown[OF loop thr])
  have tg: "\<forall>a\<in>set sent. target a = Some (resultId f)" by (rule laneLoop_targets[OF loop])
  then have tn: "\<forall>a\<in>set sent. target a \<noteq> None" by simp
  show "laneAlone s f (laneTask env s f)
              = (laneAlone s f sent)\<lparr>isLoading := False, error := Some msg\<rparr>"
    unfolding t laneAlone_error[OF tg] laneAlone_foldl[OF tn] ..
  {
    assume e: "events (streamCompletion env (laneCall s f kf)) = []"
    with loop have s0: "sent = []" by simp
    show "laneTask env s f = [SET_ERROR (resultId f) msg]" using t s0 by simp
    show "laneAlone s f (laneTask env s f) = (stagedLane f)\<lparr>isLoading := False, error := Some msg\<rparr>"
      unfolding t laneAlone_error[OF tg] by (simp add: s0)
  }
next
  assume h: "apiKeys s (providerId u) = Some ku \<and> ku \<noteq> []
            \<and> (mode (raceConfig s) = Drag \<or> mode (raceConfig s) = Free_for_all)
            \<and> streamCompletion env (laneCall s u ku) = \<lparr>events = map Chunk ts, thrown = None\<rparr>"
  then have key: "apiKeys s (providerId u) = Some ku" "ku \<noteq> []"
    and md: "mode (raceConfig s) = Drag \<or> mode (raceConfig s) = Free_for_all"
    and str: "streamCompletion env (laneCall s u ku) = \<lparr>events = map Chunk ts, thrown = None\<rparr>"
    by blast+
  show t: "laneTask env s u
              = map (RECEIVE_CHUNK (resultId u)) ts
                @ [SET_ERROR (resultId u) (js ''Stream ended without metrics'')]"
    by (simp add: laneTask_key[OF key] laneRun_no_metrics[OF md str])
  have tg: "\<forall>a\<in>set (map (RECEIVE_CHUNK (resultId u)) ts). target a = Some (resultId u)" by simp
  have "foldl (\<lambda>r a. laneApply a r) (stagedLane u) (map (RECEIVE_CHUNK (resultId u)) ts)
               = (stagedLane u)\<lparr>responseText := responseText (stagedLane u) @ concat ts\<rparr>"
    by (rule foldl_receive) (simp add: stagedLane_def)
  then show "laneAlone s u (laneTask env s u)
              = (stagedLane u)\<lparr>responseText := concat ts, isLoading := False,
                                error := Some (js ''Stream ended without metrics'')\<rparr>"
    unfolding t laneAlone_error[OF tg] by (simp add: stagedLane_def)
next
  assume "sib \<noteq> f"
  then show "laneTask (env\<lparr>streamCompletion := (streamCompletion env)(laneCall s f kf := other)\<rparr>) s sib
              = laneTask env s sib"
    by (rule laneTask_client)
qed


lemma demo_ids: "resultId cerebras_pair = js ''cerebras-llama3.1-8b''"
  "resultId zhipu_pair = js ''zhipu-glm-4''"
  by (simp_all add: resultId_def cerebras_pair_def zhipu_pair_def js_def)



text \<open>
  A race of four lanes: one finishes, one is answered with HTTP 401, one ends without
  metrics and one has no key.
\<close>

lemma mixed_providers:
  "providersToTest mixed_state = [cerebras_pair, zhipu_pair, moonshot_pair, groq_pair]"
  by (simp add: providersToTest_def mixed_state_def)

lemma mixed_ids:
  "resultId moonshot_pair = js ''moonshot-kimi-k2''"
  "resultId groq_pair = js ''groq-llama3''"
  by (simp_all add: resultId_def moonshot_pair_def groq_pair_def js_def)

lemma mixed_keys:
  "apiKeys mixed_state (providerId cerebras_pair) = Some (js ''sk-1'')"
  "apiKeys mixed_state (providerId zhipu_pair) = Some (js ''sk-2'')"
  "apiKeys mixed_state (providerId moonshot_pair) = Some (js ''sk-3'')"
  "noKey (apiKeys mixed_state (providerId groq_pair))"
  "providerId groq_pair \<notin> set objectPrototypeMembers"
  by (simp_all add: mixed_state_def cerebras_pair_def zhipu_pair_def moonshot_pair_def
        groq_pair_def noKey_def objectPrototypeMembers_def js_def)

lemma mixed_streams:
  "streamCompletion mixed_env (laneCall mixed_state cerebras_pair (js ''sk-1''))
     = \<lparr>events = map Chunk [js ''Hi'', js ''!'']
                  @ [Metrics \<lparr> startTime = 1000, firstTokenTime = Some 1010, finishTime = 1020,
                               tokenCount = 3, inputTokens = Some 2, outputTokens = Some 1 \<rparr>],
        thrown = None\<rparr>"
  "streamCompletion mixed_env (laneCall mixed_state zhipu_pair (js ''sk-2''))
     = \<lparr>events = [], thrown = Some (js ''Zhipu API error: 401 Unauthorized'')\<rparr>"
  "streamCompletion mixed_env (laneCall mixed_state moonshot_pair (js ''sk-3''))
     = \<lparr>events = map Chunk [js ''Hi''], thrown = None\<rparr>"
  by (simp_all add: mixed_env_def mixed_client_def laneCall_def demo_stream_def
        cerebras_pair_def zhipu_pair_def moonshot_pair_def js_def)

lemma mixed_mode:
  "mode (raceConfig mixed_state) = Drag \<or> mode (raceConfig mixed_state) = Free_for_all"
  by (simp add: mixed_state_def demo_config_def)

lemma sk_nonempty: "js ''sk-1'' \<noteq> []" "js ''sk-2'' \<noteq> []" "js ''sk-3'' \<noteq> []"
  by (simp_all add: js_def)

lemma mixed_lanes:
  "laneTask mixed_env mixed_state cerebras_pair
     = [RECEIVE_CHUNK (js ''cerebras-llama3.1-8b'') (js ''Hi''),
        RECEIVE_CHUNK (js ''cerebras-llama3.1-8b'') (js ''!''),
        FINISH_STREAM (js ''cerebras-llama3.1-8b'')
          \<lparr> startTime = 1000, firstTokenTime = Some 1010, finishTime = 1020,
            tokenCount = 3, inputTokens = Some 2, outputTokens = Some 1 \<rparr>]"
  "laneTask mixed_env mixed_state zhipu_pair
     = [SET_ERROR (js ''zhipu-glm-4'') (js ''Zhipu API error: 401 Unauthorized'')]"
  "laneTask mixed_env mixed_state moonshot_pair
     = [RECEIVE_CHUNK (js ''moonshot-kimi-k2'') (js ''Hi''),
        SET_ERROR (js ''moonshot-kimi-k2'') (js ''Stream ended without metrics'')]"
  "laneTask mixed_env mixed_state groq_pair
     = [SET_ERROR (js ''groq-llama3'') (js ''API Key not set'')]"
proof -
  show "laneTask mixed_env mixed_state cerebras_pair
     = [RECEIVE_CHUNK (js ''cerebras-llama3.1-8b'') (js ''Hi''),
        RECEIVE_CHUNK (js ''cerebras-llama3.1-8b'') (js ''!''),
        FINISH_STREAM (js ''cerebras-llama3.1-8b'')
          \<lparr> startTime = 1000, firstTokenTime = Some 1010, finishTime = 1020,
            tokenCount = 3, inputTokens = Some 2, outputTokens = Some 1 \<rparr>]"
    using laneTask_unlimited[OF mixed_keys(1) sk_nonempty(1) mixed_mode mixed_streams(1), of ]
    by (simp add: demo_ids)
  show "laneTask mixed_env mixed_state zhipu_pair
     = [SET_ERROR (js ''zhipu-glm-4'') (js ''Zhipu API error: 401 Unauthorized'')]"
    by (simp add: laneTask_key[OF mixed_keys(2) sk_nonempty(2)] laneRun_def laneEnd_def
          mixed_streams(2) demo_ids Let_def)
  show "laneTask mixed_env mixed_state moonshot_pair
     = [RECEIVE_CHUNK (js ''moonshot-kimi-k2'') (js ''Hi''),
        SET_ERROR (js ''moonshot-kimi-k2'') (js ''Stream ended without metrics'')]"
    using laneRun_no_metrics[OF mixed_mode mixed_streams(3), of moonshot_pair]
    by (simp add: laneTask_key[OF mixed_keys(3) sk_nonempty(3)] mixed_ids)
  show "laneTask mixed_env mixed_state groq_pair
     = [SET_ERROR (js ''groq-llama3'') (js ''API Key not set'')]"
    by (simp add: laneTask_noKey[OF mixed_keys(4) mixed_keys(5)] mixed_ids)
qed

lemma mixed_run:
  "handleRunComparison mixed_env mixed_state
     [START_COMPARISON [cerebras_pair, zhipu_pair, moonshot_pair, groq_pair],
      SET_RACE_STATE Racing, SET_COUNTDOWN None,
      RECEIVE_CHUNK (js ''cerebras-llama3.1-8b'') (js ''Hi''),
      SET_ERROR (js ''zhipu-glm-4'') (js ''Zhipu API error: 401 Unauthorized''),
      RECEIVE_CHUNK (js ''moonshot-kimi-k2'') (js ''Hi''),
      SET_ERROR (js ''groq-llama3'') (js ''API Key not set''),
      RECEIVE_CHUNK (js ''cerebras-llama3.1-8b'') (js ''!''),
      SET_ERROR (js ''moonshot-kimi-k2'') (js ''Stream ended without metrics''),
      FINISH_STREAM (js ''cerebras-llama3.1-8b'')
        \<lparr> startTime = 1000, firstTokenTime = Some 1010, finishTime = 1020,
          tokenCount = 3, inputTokens = Some 2, outputTokens = Some 1 \<rparr>,
      FINISH_COMPARISON]"
proof -
  let ?r1 = "RECEIVE_CHUNK (js ''cerebras-llama3.1-8b'') (js ''Hi'')"
  let ?r2 = "RECEIVE_CHUNK (js ''cerebras-llama3.1-8b'') (js ''!'')"
  let ?f = "FINISH_STREAM (js ''cerebras-llama3.1-8b'')
        \<lparr> startTime = 1000, firstTokenTime = Some 1010, finishTime = 1020,
          tokenCount = 3, inputTokens = Some 2, outputTokens = Some 1 \<rparr>"
  let ?eZ = "SET_ERROR (js ''zhipu-glm-4'') (js ''Zhipu API error: 401 Unauthorized'')"
  let ?rM = "RECEIVE_CHUNK (js ''moonshot-kimi-k2'') (js ''Hi'')"
  let ?eM = "SET_ERROR (js ''moonshot-kimi-k2'') (js ''Stream ended without metrics'')"
  let ?eG = "SET_ERROR (js ''groq-llama3'') (js ''API Key not set'')"
  have i7: "interleaving [[], [], [], []] ([] :: AppAction list)"
    by (rule interleaving.all_done) simp
  have i6: "interleaving [[?f], [], [], []] [?f]"
    using interleaving.one_more[of 0 "[[?f], [], [], []]" ?f "[]" "[]"] i7 by simp
  have i5: "interleaving [[?f], [], [?eM], []] [?eM, ?f]"
    using interleaving.one_more[of 2 "[[?f], [], [?eM], []]" ?eM "[]" "[?f]"] i6 by simp
  have i4: "interleaving [[?r2, ?f], [], [?eM], []] [?r2, ?eM, ?f]"
    using interleaving.one_more[of 0 "[[?r2, ?f], [], [?eM], []]" ?r2 "[?f]" "[?eM, ?f]"] i5 by simp
  have i3: "interleaving [[?r2, ?f], [], [?eM], [?eG]] [?eG, ?r2, ?eM, ?f]"
    using interleaving.one_more[of 3 "[[?r2, ?f], [], [?eM], [?eG]]" ?eG "[]" "[?r2, ?eM, ?f]"] i4
    by simp
  have i2: "interleaving [[?r2, ?f], [], [?rM, ?eM], [?eG]] [?rM, ?eG, ?r2, ?eM, ?f]"
    using interleaving.one_more[of 2 "[[?r2, ?f], [], [?rM, ?eM], [?eG]]" ?rM "[?eM]"
        "[?eG, ?r2, ?eM, ?f]"] i3
    by simp
  have i1: "interleaving [[?r2, ?f], [?eZ], [?rM, ?eM], [?eG]] [?eZ, ?rM, ?eG, ?r2, ?eM, ?f]"
    using interleaving.one_more[of 1 "[[?r2, ?f], [?eZ], [?rM, ?eM], [?eG]]" ?eZ "[]"
        "[?rM, ?eG, ?r2, ?eM, ?f]"] i2
    by simp
  have i0: "interleaving [[?r1, ?r2, ?f], [?eZ], [?rM, ?eM], [?eG]]
              [?r1, ?eZ, ?rM, ?eG, ?r2, ?eM, ?f]"
    using interleaving.one_more[of 0 "[[?r1, ?r2, ?f], [?eZ], [?rM, ?eM], [?eG]]" ?r1 "[?r2, ?f]"
        "[?eZ, ?rM, ?eG, ?r2, ?eM, ?f]"] i1
    by simp
  have il: "interleaving (map (laneTask mixed_env mixed_state) (providersToTest mixed_state))
              [?r1, ?eZ, ?rM, ?eG, ?r2, ?eM, ?f]"
    using i0 by (simp add: mixed_providers mixed_lanes)
  have ne: "providersToTest mixed_state \<noteq> []" by (simp add: mixed_providers)
  from handleRunComparison.race[OF ne il] show ?thesis
    by (simp add: mixed_providers countdown_def mixed_env_def)
qed

theorem lane_failures_isolated_witness:
  "handleRunComparison mixed_env mixed_state
     [START_COMPARISON [cerebras_pair, zhipu_pair, moonshot_pair, groq_pair],
      SET_RACE_STATE Racing, SET_COUNTDOWN None,
      RECEIVE_CHUNK (js ''cerebras-llama3.1-8b'') (js ''Hi''),
      SET_ERROR (js ''zhipu-glm-4'') (js ''Zhipu API error: 401 Unauthorized''),
      RECEIVE_CHUNK (js ''moonshot-kimi-k2'') (js ''Hi''),
      SET_ERROR (js ''groq-llama3'') (js ''API Key not set''),
      RECEIVE_CHUNK (js ''cerebras-llama3.1-8b'') (js ''!''),
      SET_ERROR (js ''moonshot-kimi-k2'') (js ''Stream ended without metrics''),
      FINISH_STREAM (js ''cerebras-llama3.1-8b'')
        \<lparr> startTime = 1000, firstTokenTime = Some 1010, finishTime = 1020,
          tokenCount = 3, inputTokens = Some 2, outputTokens = Some 1 \<rparr>,
      FINISH_COMPARISON]
 \<and> apiKeys mixed_state (providerId cerebras_pair) = Some (js ''sk-1'')
 \<and> apiKeys mixed_state (providerId zhipu_pair) = Some (js ''sk-2'')
 \<and> apiKeys mixed_state (providerId moonshot_pair) = Some (js ''sk-3'')
 \<and> noKey (apiKeys mixed_state (providerId groq_pair))
 \<and> providerId groq_pair \<notin> set objectPrototypeMembers
 \<and> streamCompletion mixed_env (laneCall mixed_state zhipu_pair (js ''sk-2''))
     = \<lparr>events = [], thrown = Some (js ''Zhipu API error: 401 Unauthorized'')\<rparr>
 \<and> streamCompletion mixed_env (laneCall mixed_state moonshot_pair (js ''sk-3''))
     = \<lparr>events = map Chunk [js ''Hi''], thrown = None\<rparr>
 \<and> distinct (map resultId [cerebras_pair, zhipu_pair, moonshot_pair, groq_pair])
 \<and> results (dispatchAll mixed_state
     [START_COMPARISON [cerebras_pair, zhipu_pair, moonshot_pair, groq_pair],
      SET_RACE_STATE Racing, SET_COUNTDOWN None,
      RECEIVE_CHUNK (js ''cerebras-llama3.1-8b'') (js ''Hi''),
      SET_ERROR (js ''zhipu-glm-4'') (js ''Zhipu API error: 401 Unauthorized''),
      RECEIVE_CHUNK (js ''moonshot-kimi-k2'') (js ''Hi''),
      SET_ERROR (js ''groq-llama3'') (js ''API Key not set''),
      RECEIVE_CHUNK (js ''cerebras-llama3.1-8b'') (js ''!''),
      SET_ERROR (js ''moonshot-kimi-k2'') (js ''Stream ended without metrics''),
      FINISH_STREAM (js ''cerebras-llama3.1-8b'')
        \<lparr> startTime = 1000, firstTokenTime = Some 1010, finishTime = 1020,
          tokenCount = 3, inputTokens = Some 2, outputTokens = Some 1 \<rparr>,
      FINISH_COMPARISON])
   = [(stagedLane cerebras_pair)
        \<lparr>responseText := js ''Hi!'', isLoading := False,
         metrics := Some \<lparr> startTime = 1000, firstTokenTime = Some 1010, finishTime = 1020,
                           tokenCount = 3, inputTokens = Some 2, outputTokens = Some 1 \<rparr>\<rparr>,
      (stagedLane zhipu_pair)
        \<lparr>isLoading := False, error := Some (js ''Zhipu API error: 401 Unauthorized'')\<rparr>,
      (stagedLane moonshot_pair)
        \<lparr>responseText := js ''Hi'', isLoading := False,
         error := Some (js ''Stream ended without metrics'')\<rparr>,
      (stagedLane groq_pair)\<lparr>isLoading := False, error := Some (js ''API Key not set'')\<rparr>]
 \<and> cerebras_pair \<noteq> zhipu_pair
 \<and> laneTask (mixed_env\<lparr>streamCompletion :=
        (streamCompletion mixed_env)(laneCall mixed_state zhipu_pair (js ''sk-2'') := demo_stream)\<rparr>)
       mixed_state cerebras_pair
     = laneTask mixed_env mixed_state cerebras_pair"
proof -
  let ?m = "\<lparr> startTime = 1000, firstTokenTime = Some 1010, finishTime = 1020,
          tokenCount = 3, inputTokens = Some 2, outputTokens = Some (1::int) \<rparr>"
  let ?s = mixed_state
  let ?t = "[START_COMPARISON [cerebras_pair, zhipu_pair, moonshot_pair, groq_pair],
      SET_RACE_STATE Racing, SET_COUNTDOWN None,
      RECEIVE_CHUNK (js ''cerebras-llama3.1-8b'') (js ''Hi''),
      SET_ERROR (js ''zhipu-glm-4'') (js ''Zhipu API error: 401 Unauthorized''),
      RECEIVE_CHUNK (js ''moonshot-kimi-k2'') (js ''Hi''),
      SET_ERROR (js ''groq-llama3'') (js ''API Key not set''),
      RECEIVE_CHUNK (js ''cerebras-llama3.1-8b'') (js ''!''),
      SET_ERROR (js ''moonshot-kimi-k2'') (js ''Stream ended without metrics''),
      FINISH_STREAM (js ''cerebras-llama3.1-8b'')
        \<lparr> startTime = 1000, firstTokenTime = Some 1010, finishTime = 1020,
          tokenCount = 3, inputTokens = Some 2, outputTokens = Some 1 \<rparr>,
      FINISH_COMPARISON]"
  have ne: "providersToTest ?s \<noteq> []" by (simp add: mixed_providers)
  have dis: "distinct (map resultId [cerebras_pair, zhipu_pair, moonshot_pair, groq_pair])"
    by (simp add: demo_ids mixed_ids js_def)
  then have ids: "distinct (map resultId (providersToTest ?s))"
    by (simp only: mixed_providers)
  have dif: "cerebras_pair \<noteq> zhipu_pair" by (simp add: cerebras_pair_def zhipu_pair_def js_def)
  have ev: "events (streamCompletion mixed_env (laneCall ?s zhipu_pair (js ''sk-2''))) = []"
    and thr: "thrown (streamCompletion mixed_env (laneCall ?s zhipu_pair (js ''sk-2'')))
                = Some (js ''Zhipu API error: 401 Unauthorized'')"
    by (simp_all add: mixed_streams(2))
  have loop: "laneLoop (raceConfig ?s) (raceStartTime mixed_env) (laneClock mixed_env zhipu_pair)
                (resultId zhipu_pair)
                (events (streamCompletion mixed_env (laneCall ?s zhipu_pair (js ''sk-2'')))) loopStart
                = ([], loopStart, False)"
    by (simp add: ev)
  note th = lane_failures_isolated[OF mixed_run ne ids, where p = groq_pair
      and anyClient = "\<lambda>c. demo_stream" and q = cerebras_pair and k = "js ''sk-1''"
      and cs = "[js ''Hi'', js ''!'']" and m = ?m
      and f = zhipu_pair and kf = "js ''sk-2''" and sent = "[]" and st = loopStart
      and msg = "js ''Zhipu API error: 401 Unauthorized''"
      and u = moonshot_pair and ku = "js ''sk-3''" and ts = "[js ''Hi'']"
      and sib = cerebras_pair and other = demo_stream]
  from th have a: "results (dispatchAll ?s ?t)
    = map (\<lambda>p. laneAlone ?s p (laneTask mixed_env ?s p)) (providersToTest ?s)"
    by blast
  from th mixed_keys(4,5) have b: "laneAlone ?s groq_pair (laneTask mixed_env ?s groq_pair)
      = (stagedLane groq_pair)\<lparr>isLoading := False, error := Some (js ''API Key not set'')\<rparr>"
    by blast
  from th mixed_keys(1) sk_nonempty(1) mixed_mode mixed_streams(1)
  have c: "laneAlone ?s cerebras_pair (laneTask mixed_env ?s cerebras_pair)
      = (stagedLane cerebras_pair)\<lparr>responseText := concat [js ''Hi'', js ''!''],
           isLoading := False, metrics := Some ?m\<rparr>"
    by blast
  from th mixed_keys(2) sk_nonempty(2) loop thr ev
  have d: "laneAlone ?s zhipu_pair (laneTask mixed_env ?s zhipu_pair)
      = (stagedLane zhipu_pair)
          \<lparr>isLoading := False, error := Some (js ''Zhipu API error: 401 Unauthorized'')\<rparr>"
    by blast
  from th mixed_keys(3) sk_nonempty(3) mixed_mode mixed_streams(3)
  have e: "laneAlone ?s moonshot_pair (laneTask mixed_env ?s moonshot_pair)
      = (stagedLane moonshot_pair)\<lparr>responseText := concat [js ''Hi''], isLoading := False,
            error := Some (js ''Stream ended without metrics'')\<rparr>"
    by blast
  from th dif have g: "laneTask (mixed_env\<lparr>streamCompletion :=
        (streamCompletion mixed_env)(laneCall ?s zhipu_pair (js ''sk-2'') := demo_stream)\<rparr>)
       ?s cerebras_pair = laneTask mixed_env ?s cerebras_pair"
    by blast
  have cc: "concat [js ''Hi'', js ''!''] = js ''Hi!''" "concat [js ''Hi''] = js ''Hi''"
    by (simp_all add: js_def)
  have r: "results (dispatchAll ?s ?t)
   = [(stagedLane cerebras_pair)\<lparr>responseText := js ''Hi!'', isLoading := False, metrics := Some ?m\<rparr>,
      (stagedLane zhipu_pair)
        \<lparr>isLoading := False, error := Some (js ''Zhipu API error: 401 Unauthorized'')\<rparr>,
      (stagedLane moonshot_pair)
        \<lparr>responseText := js ''Hi'', isLoading := False,
         error := Some (js ''Stream ended without metrics'')\<rparr>,
      (stagedLane groq_pair)\<lparr>isLoading := False, error := Some (js ''API Key not set'')\<rparr>]"
    unfolding a mixed_providers by (simp only: list.map b c d e cc)
  show ?thesis using mixed_run mixed_keys mixed_streams(2,3) dis r dif g by blast
qed


section \<open>Which pairs get a lane\<close>











section \<open>The cancellation signal\<close>





end
